theory Spec2Isabelle
  imports Main "HOL-Library.Word"
begin

section \<open>JavaScript values\<close>

text \<open>
  The values that reach the two programs from outside (a request body field, the JSON
  body of an HTTP response) are untyped JavaScript values. Only one level of property
  access is ever made on them, so an object is its list of own properties.
\<close>

datatype js_value =
    JUndefined
  | JNull
  | JBool bool
  | JNum int
  | JStr string
  | JArr "js_value list"
  | JObj "(string \<times> js_value) list"

text \<open>JavaScript truthiness: \<open>!v\<close> is true exactly on the falsy values.\<close>

fun falsy :: "js_value \<Rightarrow> bool" where
  "falsy JUndefined = True"
| "falsy JNull = True"
| "falsy (JBool b) = (\<not> b)"
| "falsy (JNum n) = (n = 0)"
| "falsy (JStr s) = (s = [])"
| "falsy (JArr _) = False"
| "falsy (JObj _) = False"

section \<open>Library functions\<close>

text \<open>
  The functions of the ethers library and the issuer's wallet that the server calls:
  \<open>isAddress\<close> is \<open>ethers.isAddress\<close>; \<open>getAddress\<close> is the parse of an address
  text into the 160-bit address it denotes (\<open>None\<close> where ethers throws);
  \<open>keccak256\<close> is the hash, returned as hex text; \<open>signMessage\<close> is
  \<open>issuerWallet.signMessage\<close> on the bytes of a hash text (\<open>None\<close> where it
  rejects); \<open>issuerAddress\<close> is \<open>issuerWallet.address\<close>.
\<close>

record env =
  isAddress :: "string \<Rightarrow> bool"
  getAddress :: "string \<Rightarrow> 160 word option"
  keccak256 :: "8 word list \<Rightarrow> string"
  signMessage :: "string \<Rightarrow> string option"
  issuerAddress :: string

section \<open>The verifications table (server.js)\<close>

text \<open>
  \<^verbatim>\<open>CREATE TABLE IF NOT EXISTS verifications (wallet TEXT PRIMARY KEY, hash TEXT,
     expiry INTEGER, txHash TEXT, status TEXT)\<close>

  One row per wallet; the primary key is the map's key. \<open>hash\<close>, \<open>expiry\<close> and
  \<open>txHash\<close> are NULL (\<open>None\<close>) until written. The server only ever writes the
  status texts \<open>Pending\<close>, \<open>Verified\<close> and \<open>Failed\<close>, and compares them as
  strings, so the status stays a string.
\<close>

type_synonym wallet = string

record row =
  hash :: "string option"
  expiry :: "int option"
  txHash :: "string option"
  status :: string

type_synonym table = "wallet \<rightharpoonup> row"

datatype db_error = SqliteError

text \<open>
  The four SQL statements of the server. Each takes a flag saying whether sqlite reports
  an error for this statement; a statement that errors has no effect on the table.
\<close>

datatype sql_stmt =
    SelectStatus wallet
  | SelectAll wallet
  | InsertOrReplacePending wallet
  | UpdateVerified wallet string int string
  | UpdateFailed wallet

text \<open>\<^verbatim>\<open>SELECT ... FROM verifications WHERE wallet = ?\<close> through \<open>db.get\<close>:
  the callback receives \<open>(err, row)\<close>, with \<open>row\<close> undefined when no row matches.\<close>

definition db_get :: "bool \<Rightarrow> table \<Rightarrow> wallet \<Rightarrow> db_error + row option" where
  "db_get fault t w = (if fault then Inl SqliteError else Inr (t w))"

text \<open>\<^verbatim>\<open>INSERT OR REPLACE INTO verifications (wallet, status) VALUES (?, 'Pending')\<close>:
  an existing row of the wallet is deleted and the new row has NULL in the columns that
  are not named.\<close>

definition pending_row :: row where
  "pending_row = \<lparr>hash = None, expiry = None, txHash = None, status = ''Pending''\<rparr>"

definition insert_or_replace_pending :: "bool \<Rightarrow> table \<Rightarrow> wallet \<Rightarrow> table" where
  "insert_or_replace_pending fault t w = (if fault then t else t(w \<mapsto> pending_row))"

text \<open>\<^verbatim>\<open>UPDATE verifications SET status = 'Verified', hash = ?, expiry = ?, txHash = ?
     WHERE wallet = ?\<close>: the only condition is on the wallet.\<close>

definition update_verified ::
  "bool \<Rightarrow> table \<Rightarrow> wallet \<Rightarrow> string \<Rightarrow> int \<Rightarrow> string \<Rightarrow> table" where
  "update_verified fault t w h e tx =
     (if fault then t
      else case t w of
             None \<Rightarrow> t
           | Some r \<Rightarrow> t(w \<mapsto> r\<lparr>status := ''Verified'', hash := Some h,
                                 expiry := Some e, txHash := Some tx\<rparr>))"

text \<open>\<^verbatim>\<open>UPDATE verifications SET status = 'Failed' WHERE wallet = ?\<close>\<close>

definition update_failed :: "bool \<Rightarrow> table \<Rightarrow> wallet \<Rightarrow> table" where
  "update_failed fault t w =
     (if fault then t
      else case t w of
             None \<Rightarrow> t
           | Some r \<Rightarrow> t(w \<mapsto> r\<lparr>status := ''Failed''\<rparr>))"

section \<open>HTTP responses\<close>

text \<open>A response is its status code and the JSON object passed to \<open>res.json\<close>.\<close>

record response =
  code :: nat
  body :: js_value

text \<open>
  What one run of a handler (or of one of its callbacks) does: the response it sends,
  the table it leaves, the SQL statements it issued in order, and the wallets for which
  it scheduled \<open>processVerification\<close> with \<open>setTimeout\<close>.
\<close>

record outcome =
  reply :: response
  table_after :: table
  issued :: "sql_stmt list"
  scheduled :: "wallet list"

section \<open>POST /kyc/submit\<close>

definition conflict_message :: "string \<Rightarrow> string" where
  "conflict_message st = ''A verification for this wallet is already '' @ st @ ''.''"

definition invalid_submit :: "table \<Rightarrow> outcome" where
  "invalid_submit t =
     \<lparr>reply = \<lparr>code = 400,
               body = JObj [(''error'', JStr ''Valid walletAddress is required.'')]\<rparr>,
      table_after = t, issued = [], scheduled = []\<rparr>"

definition database_error :: "table \<Rightarrow> outcome" where
  "database_error t =
     \<lparr>reply = \<lparr>code = 500, body = JObj [(''error'', JStr ''Database error.'')]\<rparr>,
      table_after = t, issued = [], scheduled = []\<rparr>"

definition conflict :: "table \<Rightarrow> string \<Rightarrow> outcome" where
  "conflict t st =
     \<lparr>reply = \<lparr>code = 409, body = JObj [(''error'', JStr (conflict_message st))]\<rparr>,
      table_after = t, issued = [], scheduled = []\<rparr>"

definition accepted_body :: "wallet \<Rightarrow> js_value" where
  "accepted_body w =
     JObj [(''wallet'', JStr w), (''status'', JStr ''Pending''),
           (''message'', JStr ''Submission received. Verification is in progress.'')]"

definition accepted :: "bool \<Rightarrow> table \<Rightarrow> wallet \<Rightarrow> outcome" where
  "accepted ins_fault t w =
     \<lparr>reply = \<lparr>code = 202, body = accepted_body w\<rparr>,
      table_after = insert_or_replace_pending ins_fault t w,
      issued = [InsertOrReplacePending w], scheduled = [w]\<rparr>"

text \<open>
  The callback of \<open>db.get\<close> in the submit handler (server.js lines 122 to 143), run
  with the result \<open>(err, row)\<close> of the SELECT on the table as it is when the callback
  runs. The INSERT is issued without a callback: when it fails (\<open>ins_fault\<close>) the
  handler answers and schedules all the same. (sqlite3 then emits an error event that
  nothing handles, which ends the process; the model lets the server go on, so that the
  runs of the model include every run of the server.)
\<close>

definition submit_callback :: "db_error + row option \<Rightarrow> bool \<Rightarrow> table \<Rightarrow> wallet \<Rightarrow> outcome" where
  "submit_callback got ins_fault t w =
     (case got of
        Inl err \<Rightarrow> database_error t
      | Inr None \<Rightarrow> accepted ins_fault t w
      | Inr (Some rw) \<Rightarrow>
          if status rw = ''Pending'' \<or> status rw = ''Verified'' then conflict t (status rw)
          else accepted ins_fault t w)"

text \<open>
  The check before the SELECT (server.js lines 115 to 118): the wallet the handler goes on
  with, or \<open>None\<close> when it answers 400. \<open>ethers.isAddress\<close> is false on every value
  that is not a string, so only a string gets past
  \<^verbatim>\<open>!walletAddress || !ethers.isAddress(walletAddress)\<close>.
\<close>

definition submit_check :: "env \<Rightarrow> js_value \<Rightarrow> wallet option" where
  "submit_check e walletAddress =
     (case walletAddress of
        JStr w \<Rightarrow> if falsy (JStr w) \<or> \<not> isAddress e w then None else Some w
      | _ \<Rightarrow> None)"

text \<open>
  The whole handler when nothing else runs between the SELECT and its callback.
  \<open>get_fault\<close> says whether the SELECT fails.
\<close>

definition submit :: "env \<Rightarrow> bool \<Rightarrow> bool \<Rightarrow> table \<Rightarrow> js_value \<Rightarrow> outcome" where
  "submit e get_fault ins_fault t walletAddress =
     (case submit_check e walletAddress of
        None \<Rightarrow> invalid_submit t
      | Some w \<Rightarrow>
          (let res = submit_callback (db_get get_fault t w) ins_fault t w
           in res\<lparr>issued := SelectStatus w # issued res\<rparr>))"

section \<open>The attestation payload\<close>

text \<open>The \<open>n\<close> low bytes of a number, most significant first.\<close>

fun be_bytes :: "nat \<Rightarrow> int \<Rightarrow> 8 word list" where
  "be_bytes 0 v = []"
| "be_bytes (Suc n) v = be_bytes n (v div 256) @ [word_of_int (v mod 256)]"

text \<open>The number that a byte sequence denotes, read the same way.\<close>

definition be_value :: "8 word list \<Rightarrow> int" where
  "be_value bs = foldl (\<lambda>a b. a * 256 + uint b) 0 bs"

datatype sol_type = SolAddress | SolUint256

text \<open>
  Modelled from the spec: \<open>ethers.solidityPacked\<close> is a library function outside the
  source; the spec calls it the deterministic, order-sensitive encoding of the fields
  into a fixed-width byte sequence. For the two types the server names, an address is
  its 20 bytes and a uint256 is 32 bytes, most significant first, with no padding
  between the fields. A JavaScript number is accepted only when it is a non-negative
  safe integer; anything else throws (\<open>None\<close>).
\<close>

fun pack :: "(string \<Rightarrow> 160 word option) \<Rightarrow> sol_type \<Rightarrow> js_value \<Rightarrow> 8 word list option" where
  "pack ga SolAddress (JStr s) = map_option (\<lambda>a. be_bytes 20 (uint a)) (ga s)"
| "pack ga SolUint256 (JNum e) =
     (if 0 \<le> e \<and> e \<le> 9007199254740991 then Some (be_bytes 32 e) else None)"
| "pack ga ty v = None"

fun pack_all ::
  "(string \<Rightarrow> 160 word option) \<Rightarrow> sol_type list \<Rightarrow> js_value list \<Rightarrow> 8 word list option" where
  "pack_all ga [] [] = Some []"
| "pack_all ga (ty # tys) (v # vs) =
     (case pack ga ty v of
        None \<Rightarrow> None
      | Some bs \<Rightarrow> map_option (\<lambda>rest. bs @ rest) (pack_all ga tys vs))"
| "pack_all ga tys vs = None"

definition solidityPackedKeccak256 :: "env \<Rightarrow> sol_type list \<Rightarrow> js_value list \<Rightarrow> string option" where
  "solidityPackedKeccak256 e tys vs = map_option (keccak256 e) (pack_all (getAddress e) tys vs)"

datatype payload_error = PackError | SignError

text \<open>\<open>createVerificationPayload\<close> (server.js lines 74 to 84); a throw or a rejected
  promise is the \<open>Inl\<close> result.\<close>

definition createVerificationPayload ::
  "env \<Rightarrow> wallet \<Rightarrow> int \<Rightarrow> payload_error + (string \<times> string)" where
  "createVerificationPayload e walletAddress expiry' =
     (case solidityPackedKeccak256 e [SolAddress, SolAddress, SolUint256]
             [JStr (issuerAddress e), JStr walletAddress, JNum expiry'] of
        None \<Rightarrow> Inl PackError
      | Some verificationHash \<Rightarrow>
          (case signMessage e verificationHash of
             None \<Rightarrow> Inl SignError
           | Some signature \<Rightarrow> Inr (verificationHash, signature)))"

text \<open>
  The encoding in the words of the spec: the ordered tuple (issuer identity, subject
  identity, expiry), each field at its fixed width.
\<close>

definition tuple_encoding :: "160 word \<Rightarrow> 160 word \<Rightarrow> int \<Rightarrow> 8 word list" where
  "tuple_encoding issuer subject expiry' =
     be_bytes 20 (uint issuer) @ be_bytes 20 (uint subject) @ be_bytes 32 expiry'"

section \<open>Asynchronous processing\<close>

datatype ledger_error = SubmissionError | Reverted

text \<open>
  \<open>processVerification\<close> (server.js lines 86 to 110) in a run whose two awaits on the
  ledger settle. \<open>now\<close> is \<open>Date.now()\<close> in milliseconds; \<open>sent\<close> is what
  \<open>contract.addVerification\<close> settles to (the transaction's hash, or a rejection);
  \<open>confirmed\<close> is what \<open>tx.wait()\<close> settles to (a rejection when the transaction
  reverted); \<open>upd_fault\<close> says whether sqlite reports an error for the UPDATE, which the
  callback only logs. Whatever is thrown inside the \<open>try\<close> block reaches the one
  \<open>catch\<close>. The result is the one statement the run issues and the table it leaves.
\<close>

definition processVerification ::
  "env \<Rightarrow> int \<Rightarrow> ledger_error + string \<Rightarrow> ledger_error + unit \<Rightarrow> bool \<Rightarrow>
     table \<Rightarrow> wallet \<Rightarrow> sql_stmt \<times> table" where
  "processVerification e now sent confirmed upd_fault t walletAddress =
     (let expiry' = now div 1000 + 365 * 24 * 60 * 60;
          caught = (UpdateFailed walletAddress, update_failed upd_fault t walletAddress)
      in case createVerificationPayload e walletAddress expiry' of
           Inl err \<Rightarrow> caught
         | Inr (verificationHash, signature) \<Rightarrow>
             (case sent of
                Inl err \<Rightarrow> caught
              | Inr tx_hash \<Rightarrow>
                  (case confirmed of
                     Inl err \<Rightarrow> caught
                   | Inr u \<Rightarrow>
                       (UpdateVerified walletAddress verificationHash expiry' tx_hash,
                        update_verified upd_fault t walletAddress verificationHash expiry'
                          tx_hash))))"

text \<open>
  The same function when an await may never settle. Both \<open>contract.addVerification\<close>
  and \<open>tx.wait()\<close> are awaited with no timeout (lines 94 and 96; \<open>tx.wait()\<close> is
  called with no argument), so the promise of a transaction that is never confirmed stays
  pending: the function then never reaches either UPDATE. The result is the statement
  the run issues, if it ever issues one, and the table it leaves.
\<close>

datatype 'a promise = Settles 'a | NeverSettles

definition processVerification_awaiting ::
  "env \<Rightarrow> int \<Rightarrow> (ledger_error + string) promise \<Rightarrow> (ledger_error + unit) promise \<Rightarrow> bool \<Rightarrow>
     table \<Rightarrow> wallet \<Rightarrow> sql_stmt option \<times> table" where
  "processVerification_awaiting e now sending waiting upd_fault t walletAddress =
     (let expiry' = now div 1000 + 365 * 24 * 60 * 60;
          caught = (Some (UpdateFailed walletAddress),
                    update_failed upd_fault t walletAddress)
      in case createVerificationPayload e walletAddress expiry' of
           Inl err \<Rightarrow> caught
         | Inr (verificationHash, signature) \<Rightarrow>
             (case sending of
                NeverSettles \<Rightarrow> (None, t)
              | Settles (Inl err) \<Rightarrow> caught
              | Settles (Inr tx_hash) \<Rightarrow>
                  (case waiting of
                     NeverSettles \<Rightarrow> (None, t)
                   | Settles (Inl err) \<Rightarrow> caught
                   | Settles (Inr u) \<Rightarrow>
                       (Some (UpdateVerified walletAddress verificationHash expiry' tx_hash),
                        update_verified upd_fault t walletAddress verificationHash expiry'
                          tx_hash))))"

section \<open>GET /kyc/status/:wallet\<close>

text \<open>\<^verbatim>\<open>row.expiry || null\<close> and \<^verbatim>\<open>row.txHash || null\<close>: NULL, 0 and the
  empty text all come out as null.\<close>

definition num_or_null :: "int option \<Rightarrow> js_value" where
  "num_or_null x = (case x of None \<Rightarrow> JNull | Some n \<Rightarrow> if falsy (JNum n) then JNull else JNum n)"

definition str_or_null :: "string option \<Rightarrow> js_value" where
  "str_or_null x = (case x of None \<Rightarrow> JNull | Some s \<Rightarrow> if falsy (JStr s) then JNull else JStr s)"

text \<open>The handler (server.js lines 146 to 177); the route parameter is always a
  string.\<close>

definition status_handler :: "env \<Rightarrow> bool \<Rightarrow> table \<Rightarrow> string \<Rightarrow> outcome" where
  "status_handler e get_fault t wallet =
     (if \<not> isAddress e wallet then
        \<lparr>reply = \<lparr>code = 400,
                  body = JObj [(''error'', JStr ''Invalid wallet address provided.'')]\<rparr>,
         table_after = t, issued = [], scheduled = []\<rparr>
      else
        (case db_get get_fault t wallet of
           Inl err \<Rightarrow>
             \<lparr>reply = \<lparr>code = 500,
                       body = JObj [(''error'', JStr ''Failed to retrieve status.'')]\<rparr>,
              table_after = t, issued = [SelectAll wallet], scheduled = []\<rparr>
         | Inr (Some r) \<Rightarrow>
             \<lparr>reply = \<lparr>code = 200,
                       body = JObj [(''wallet'', JStr wallet), (''status'', JStr (status r)),
                                    (''expiry'', num_or_null (expiry r)),
                                    (''txHash'', str_or_null (txHash r))]\<rparr>,
              table_after = t, issued = [SelectAll wallet], scheduled = []\<rparr>
         | Inr None \<Rightarrow>
             \<lparr>reply = \<lparr>code = 200,
                       body = JObj [(''wallet'', JStr wallet), (''status'', JStr ''None'')]\<rparr>,
              table_after = t, issued = [SelectAll wallet], scheduled = []\<rparr>))"

section \<open>The frontend's status query (index.tsx)\<close>

text \<open>
  Reading a property: a \<open>TypeError\<close> on \<open>null\<close> and \<open>undefined\<close>, the property's
  value on an object that has it, \<open>undefined\<close> otherwise (none of the primitive
  wrappers or arrays has a property called \<open>status\<close>).
\<close>

datatype js_error = TypeError | InvalidWalletAddress | RequestFailed

definition get_prop :: "js_value \<Rightarrow> string \<Rightarrow> js_error + js_value" where
  "get_prop v k =
     (case v of
        JUndefined \<Rightarrow> Inl TypeError
      | JNull \<Rightarrow> Inl TypeError
      | JObj ps \<Rightarrow> (case map_of ps k of None \<Rightarrow> Inr JUndefined | Some x \<Rightarrow> Inr x)
      | _ \<Rightarrow> Inr JUndefined)"

text \<open>
  The body of the \<open>try\<close> block of \<open>getVerificationStatus\<close> (index.tsx lines 26 to
  37). \<open>fetched\<close> is what \<open>axios.get\<close> settles to: the response's \<open>data\<close>, or a
  rejection (no answer, or a status outside 2xx).
\<close>

definition status_query :: "(string \<Rightarrow> bool) \<Rightarrow> js_error + js_value \<Rightarrow> js_value \<Rightarrow> js_error + js_value" where
  "status_query isAddr fetched walletAddress =
     (if \<not> (case walletAddress of JStr w \<Rightarrow> isAddr w | _ \<Rightarrow> False) then Inl InvalidWalletAddress
      else
        (case fetched of
           Inl err \<Rightarrow> Inl err
         | Inr data \<Rightarrow>
             (case get_prop data ''status'' of
                Inl err \<Rightarrow> Inl err
              | Inr st \<Rightarrow> Inr (if falsy st then JStr ''Unknown'' else st))))"

text \<open>The function with its \<open>catch\<close>: every error becomes the text \<open>None\<close>.\<close>

definition getVerificationStatus :: "(string \<Rightarrow> bool) \<Rightarrow> js_error + js_value \<Rightarrow> js_value \<Rightarrow> js_value" where
  "getVerificationStatus isAddr fetched walletAddress =
     (case status_query isAddr fetched walletAddress of
        Inl err \<Rightarrow> JStr ''None''
      | Inr v \<Rightarrow> v)"

section \<open>The server as a transition system\<close>

text \<open>
  Node runs one callback at a time, to its end. What the server does over time is a
  sequence of such runs: a submit request arrives and its SELECT is performed; later the
  callback of that SELECT runs; later still a timer fires and \<open>processVerification\<close>
  runs to its UPDATE. Runs for different requests interleave freely. Each SQL statement is
  taken to execute at the moment it is issued, and a processing run to act on the table
  at the moment of its UPDATE, the only statement it issues; a processing whose await
  never settles issues none, and is a timer that never fires. The state keeps the
  table, the SELECTs whose callback has not run yet (each with the result it read), the
  wallets whose processing is scheduled, the responses sent and the statements issued,
  oldest first.
\<close>

record sys =
  tbl :: table
  selects :: "(wallet \<times> (db_error + row option)) list"
  timers :: "wallet list"
  replies :: "response list"
  stmts :: "sql_stmt list"

definition init :: sys where
  "init = \<lparr>tbl = Map.empty, selects = [], timers = [], replies = [], stmts = []\<rparr>"

datatype event =
    SubmitRequest js_value bool
  | SelectCallback nat bool
  | TimerFires nat int "ledger_error + string" "ledger_error + unit" bool
  | StatusRequest string bool

definition remove_nth :: "nat \<Rightarrow> 'a list \<Rightarrow> 'a list" where
  "remove_nth i xs = take i xs @ drop (Suc i) xs"

text \<open>
  One run. \<open>SubmitRequest v f\<close>: the submit handler up to its SELECT, which fails when
  \<open>f\<close>. \<open>SelectCallback i f\<close>: the callback of the \<open>i\<close>-th outstanding SELECT, whose
  INSERT fails when \<open>f\<close>. \<open>TimerFires i now sent confirmed f\<close>: the processing scheduled
  \<open>i\<close>-th, with the clock and the ledger's answers, whose UPDATE fails when \<open>f\<close>.
  \<open>StatusRequest w f\<close>: the status handler, whose SELECT fails when \<open>f\<close>. An index
  that names nothing leaves the state as it is.
\<close>

fun fire :: "env \<Rightarrow> sys \<Rightarrow> event \<Rightarrow> sys" where
  "fire e s (SubmitRequest v f) =
     (case submit_check e v of
        None \<Rightarrow> s\<lparr>replies := replies s @ [reply (invalid_submit (tbl s))]\<rparr>
      | Some w \<Rightarrow> s\<lparr>selects := selects s @ [(w, db_get f (tbl s) w)],
                     stmts := stmts s @ [SelectStatus w]\<rparr>)"
| "fire e s (SelectCallback i f) =
     (if i < length (selects s) then
        (let res = submit_callback (snd (selects s ! i)) f (tbl s) (fst (selects s ! i))
         in s\<lparr>tbl := table_after res,
               selects := remove_nth i (selects s),
               timers := timers s @ scheduled res,
               replies := replies s @ [reply res],
               stmts := stmts s @ issued res\<rparr>)
      else s)"
| "fire e s (TimerFires i now sent confirmed f) =
     (if i < length (timers s) then
        (let res = processVerification e now sent confirmed f (tbl s) (timers s ! i)
         in s\<lparr>tbl := snd res,
               timers := remove_nth i (timers s),
               stmts := stmts s @ [fst res]\<rparr>)
      else s)"
| "fire e s (StatusRequest w f) =
     (let res = status_handler e f (tbl s) w
      in s\<lparr>replies := replies s @ [reply res], stmts := stmts s @ issued res\<rparr>)"

definition run :: "env \<Rightarrow> sys \<Rightarrow> event list \<Rightarrow> sys" where
  "run e s evs = foldl (fire e) s evs"

text \<open>
  Calls that do not overlap and meet no sqlite error: each submit request is followed
  at once by the callback of its SELECT.
\<close>

datatype call =
    Submit js_value
  | Process nat int "ledger_error + string" "ledger_error + unit"
  | Query string

fun steps_of :: "call \<Rightarrow> event list" where
  "steps_of (Submit v) = [SubmitRequest v False, SelectCallback 0 False]"
| "steps_of (Process i now sent confirmed) = [TimerFires i now sent confirmed False]"
| "steps_of (Query w) = [StatusRequest w False]"

definition run_calls :: "env \<Rightarrow> sys \<Rightarrow> call list \<Rightarrow> sys" where
  "run_calls e s cs = run e s (concat (map steps_of cs))"

text \<open>The three terminal fields of a record: all set, or none set.\<close>

definition all_set :: "row \<Rightarrow> bool" where
  "all_set r = (hash r \<noteq> None \<and> expiry r \<noteq> None \<and> txHash r \<noteq> None)"

definition none_set :: "row \<Rightarrow> bool" where
  "none_set r = (hash r = None \<and> expiry r = None \<and> txHash r = None)"

text \<open>
  No record split between two writes: the three fields of a record are all NULL, or
  they are the three values of one and the same UPDATE among the statements issued.
\<close>

definition one_write :: "sys \<Rightarrow> bool" where
  "one_write s =
     (\<forall>w r. tbl s w = Some r \<longrightarrow>
        none_set r \<or>
        (\<exists>h x tx. UpdateVerified w h x tx \<in> set (stmts s) \<and>
                   hash r = Some h \<and> expiry r = Some x \<and> txHash r = Some tx))"

text \<open>
  The states that calls which do not overlap can reach: no SELECT is outstanding, a
  wallet is scheduled at most once, and it is scheduled exactly when its record is the
  freshly inserted Pending record; any other record is Verified with all three fields
  or Failed with none.
\<close>

fun record_ok :: "row option \<Rightarrow> bool \<Rightarrow> bool" where
  "record_ok None is_scheduled = (\<not> is_scheduled)"
| "record_ok (Some r) is_scheduled =
     ((r = pending_row \<and> is_scheduled) \<or>
      (status r = ''Verified'' \<and> all_set r \<and> \<not> is_scheduled) \<or>
      (status r = ''Failed'' \<and> none_set r \<and> \<not> is_scheduled))"

definition settled :: "sys \<Rightarrow> bool" where
  "settled s =
     (selects s = [] \<and> distinct (timers s) \<and>
      (\<forall>w. record_ok (tbl s w) (w \<in> set (timers s))))"

section \<open>An environment for the examples\<close>

text \<open>
  Concrete stand-ins for the library in the worked examples: two known addresses, a
  \<open>keccak256\<close> that only prints its input as hex text (so that an example shows the
  bytes that are hashed; no property of the hash is used anywhere), and a signer that
  always succeeds.
\<close>

definition hex_digit :: "nat \<Rightarrow> char" where
  "hex_digit n = ''0123456789abcdef'' ! (n mod 16)"

definition hex_text :: "8 word list \<Rightarrow> string" where
  "hex_text bs = ''0x'' @ concat (map (\<lambda>b. [hex_digit (unat b div 16), hex_digit (unat b)]) bs)"

definition example_issuer :: string where
  "example_issuer = ''0x00000000000000000000000000000000000000aa''"

definition example_wallet :: string where
  "example_wallet = ''0x00000000000000000000000000000000000001bb''"

definition example_env :: env where
  "example_env =
     \<lparr>isAddress = (\<lambda>s. s = example_issuer \<or> s = example_wallet),
      getAddress = (\<lambda>s. if s = example_issuer then Some 0xaa
                         else if s = example_wallet then Some 0x1bb else None),
      keccak256 = hex_text,
      signMessage = (\<lambda>h. Some (''signed '' @ h)),
      issuerAddress = example_issuer\<rparr>"

section \<open>Submission: acceptance and conflict\<close>

text \<open>
  C1. For a well-formed wallet whose SELECT succeeds: when the table has no row for the
  wallet, or a row in state Failed, submit answers 202 with status Pending, schedules
  the processing of that wallet and (when the INSERT succeeds) leaves the row Pending
  with no terminal field; when the row is Pending or Verified, submit answers 409 with
  a message naming the current state, changes no row, issues no write and schedules
  nothing.
\<close>

theorem submit_accept_or_conflict:
  assumes "isAddress e w" and "w \<noteq> []"
  shows "((t w = None \<or> (\<exists>r. t w = Some r \<and> status r = ''Failed'')) \<longrightarrow>
            reply (submit e False insf t (JStr w)) =
              \<lparr>code = 202,
               body = JObj [(''wallet'', JStr w), (''status'', JStr ''Pending''),
                            (''message'',
                             JStr ''Submission received. Verification is in progress.'')]\<rparr> \<and>
            scheduled (submit e False insf t (JStr w)) = [w] \<and>
            issued (submit e False insf t (JStr w)) =
              [SelectStatus w, InsertOrReplacePending w] \<and>
            table_after (submit e False False t (JStr w)) =
              t(w \<mapsto> \<lparr>hash = None, expiry = None, txHash = None, status = ''Pending''\<rparr>)) \<and>
         (\<forall>r. t w = Some r \<and> (status r = ''Pending'' \<or> status r = ''Verified'') \<longrightarrow>
            reply (submit e False insf t (JStr w)) =
              \<lparr>code = 409,
               body = JObj [(''error'',
                             JStr (''A verification for this wallet is already '' @
                                   status r @ ''.''))]\<rparr> \<and>
            table_after (submit e False insf t (JStr w)) = t \<and>
            issued (submit e False insf t (JStr w)) = [SelectStatus w] \<and>
            scheduled (submit e False insf t (JStr w)) = [])"
  using assms
  by (auto simp: submit_def submit_check_def submit_callback_def db_get_def
           insert_or_replace_pending_def accepted_def accepted_body_def conflict_def
           conflict_message_def pending_row_def Let_def
           split: option.splits)

theorem submit_accept_or_conflict_witness:
  "reply (submit example_env False False
            [example_wallet \<mapsto> \<lparr>hash = None, expiry = None, txHash = None, status = ''Failed''\<rparr>]
            (JStr example_wallet)) =
     \<lparr>code = 202,
      body = JObj [(''wallet'', JStr ''0x00000000000000000000000000000000000001bb''),
                   (''status'', JStr ''Pending''),
                   (''message'', JStr ''Submission received. Verification is in progress.'')]\<rparr> \<and>
   table_after (submit example_env False False
            [example_wallet \<mapsto> \<lparr>hash = None, expiry = None, txHash = None, status = ''Failed''\<rparr>]
            (JStr example_wallet)) example_wallet =
     Some \<lparr>hash = None, expiry = None, txHash = None, status = ''Pending''\<rparr> \<and>
   reply (submit example_env False False
            [example_wallet \<mapsto> \<lparr>hash = Some ''0xaa'', expiry = Some 1793664000,
                                txHash = Some ''0xbb'', status = ''Verified''\<rparr>]
            (JStr example_wallet)) =
     \<lparr>code = 409,
      body = JObj [(''error'', JStr ''A verification for this wallet is already Verified.'')]\<rparr> \<and>
   table_after (submit example_env False False
            [example_wallet \<mapsto> \<lparr>hash = Some ''0xaa'', expiry = Some 1793664000,
                                txHash = Some ''0xbb'', status = ''Verified''\<rparr>]
            (JStr example_wallet)) example_wallet =
     Some \<lparr>hash = Some ''0xaa'', expiry = Some 1793664000, txHash = Some ''0xbb'',
           status = ''Verified''\<rparr>"
proof -
  have a: "isAddress example_env example_wallet"
    by (simp add: example_env_def)
  have b: "example_wallet \<noteq> []"
    by (simp add: example_wallet_def)
  from submit_accept_or_conflict [OF a b, where insf = False
          and t = "[example_wallet \<mapsto>
                      \<lparr>hash = None, expiry = None, txHash = None, status = ''Failed''\<rparr>]"]
       submit_accept_or_conflict [OF a b, where insf = False
          and t = "[example_wallet \<mapsto>
                      \<lparr>hash = Some ''0xaa'', expiry = Some 1793664000,
                       txHash = Some ''0xbb'', status = ''Verified''\<rparr>]"]
  show ?thesis
    by (simp add: example_wallet_def)
qed

section \<open>The digest\<close>

lemma length_be_bytes: "length (be_bytes n v) = n"
  by (induction n arbitrary: v) auto

lemma be_value_snoc: "be_value (bs @ [b]) = be_value bs * 256 + uint b"
  by (simp add: be_value_def)

lemma be_value_be_bytes: "be_value (be_bytes n v) = v mod 256 ^ n"
proof (induction n arbitrary: v)
  case 0
  show ?case by (simp add: be_value_def)
next
  case (Suc n)
  have byte: "uint (word_of_int (v mod 256) :: 8 word) = v mod 256"
    by (simp add: uint_word_of_int_eq take_bit_eq_mod)
  have "be_value (be_bytes (Suc n) v) = (v div 256 mod 256 ^ n) * 256 + v mod 256"
    by (simp add: be_value_snoc Suc.IH byte)
  also have "\<dots> = v mod (256 * 256 ^ n)"
    by (simp add: zmod_zmult2_eq)
  finally show ?case by simp
qed

lemma be_bytes_inject:
  assumes "be_bytes n v = be_bytes n v'" and "0 \<le> v" and "v < 256 ^ n" and "0 \<le> v'" and "v' < 256 ^ n"
  shows "v = v'"
proof -
  have "v mod 256 ^ n = v' mod 256 ^ n"
    using assms(1) be_value_be_bytes by metis
  with assms(2-5) show ?thesis by simp
qed

lemma uint_address_bound: "uint (a :: 160 word) < 256 ^ 20"
proof -
  have "uint a < 2 ^ LENGTH(160)" by (rule uint_lt2p)
  then show ?thesis by simp
qed

lemma tuple_encoding_length: "length (tuple_encoding i s x) = 72"
  by (simp add: tuple_encoding_def length_be_bytes)

lemma tuple_encoding_inject:
  assumes eq: "tuple_encoding i s x = tuple_encoding i' s' x'"
    and x: "0 \<le> x" "x < 2 ^ 256" and x': "0 \<le> x'" "x' < 2 ^ 256"
  shows "i = i' \<and> s = s' \<and> x = x'"
proof -
  from eq have a: "be_bytes 20 (uint i) = be_bytes 20 (uint i')"
    and rest: "be_bytes 20 (uint s) @ be_bytes 32 x = be_bytes 20 (uint s') @ be_bytes 32 x'"
    by (simp_all add: tuple_encoding_def length_be_bytes)
  from rest have b: "be_bytes 20 (uint s) = be_bytes 20 (uint s')"
    and c: "be_bytes 32 x = be_bytes 32 x'"
    by (simp_all add: length_be_bytes)
  have nonneg: "0 \<le> uint k" for k :: "160 word"
    by simp
  have "uint i = uint i'"
    by (rule be_bytes_inject [OF a nonneg uint_address_bound nonneg uint_address_bound])
  moreover have "uint s = uint s'"
    by (rule be_bytes_inject [OF b nonneg uint_address_bound nonneg uint_address_bound])
  moreover have "x = x'"
  proof (rule be_bytes_inject [OF c])
    show "x < 256 ^ 32" and "x' < 256 ^ 32" using x(2) x'(2) by simp_all
  qed (use x x' in simp_all)
  ultimately show ?thesis by (simp add: word_uint_eq_iff)
qed

text \<open>
  C6. The digest is a function of the issuer, the subject and the expiry alone: for an
  issuer and a subject that parse to addresses and an expiry that is a non-negative
  safe integer, \<open>createVerificationPayload\<close> returns the hash of the encoding of
  the ordered tuple (issuer, subject, expiry), next to the signature over it. That
  encoding always has 72 bytes, and it is different for different tuples: in particular,
  exchanging two fields changes it.
\<close>

theorem digest_is_hash_of_tuple_encoding:
  assumes "getAddress e (issuerAddress e) = Some issuer" and "getAddress e w = Some subject"
    and "0 \<le> x" and "x \<le> 9007199254740991"
  shows "createVerificationPayload e w x =
           (case signMessage e (keccak256 e (tuple_encoding issuer subject x)) of
              None \<Rightarrow> Inl SignError
            | Some sg \<Rightarrow> Inr (keccak256 e (tuple_encoding issuer subject x), sg)) \<and>
         length (tuple_encoding issuer subject x) = 72 \<and>
         (\<forall>issuer' subject' x'. 0 \<le> x' \<and> x' < 2 ^ 256 \<longrightarrow>
            (tuple_encoding issuer' subject' x' = tuple_encoding issuer subject x) =
            (issuer' = issuer \<and> subject' = subject \<and> x' = x))"
proof (intro conjI allI impI)
  show "createVerificationPayload e w x =
          (case signMessage e (keccak256 e (tuple_encoding issuer subject x)) of
             None \<Rightarrow> Inl SignError
           | Some sg \<Rightarrow> Inr (keccak256 e (tuple_encoding issuer subject x), sg))"
    using assms
    by (simp add: createVerificationPayload_def solidityPackedKeccak256_def tuple_encoding_def
          split: option.splits)
next
  show "length (tuple_encoding issuer subject x) = 72"
    by (rule tuple_encoding_length)
next
  fix issuer' subject' :: "160 word" and x' :: int
  assume x': "0 \<le> x' \<and> x' < 2 ^ 256"
  have x: "x < 2 ^ 256"
    using assms(4) by simp
  show "(tuple_encoding issuer' subject' x' = tuple_encoding issuer subject x) =
          (issuer' = issuer \<and> subject' = subject \<and> x' = x)"
    using tuple_encoding_inject [of issuer' subject' x' issuer subject x] x' assms(3) x
    by blast
qed

theorem digest_is_hash_of_tuple_encoding_witness:
  "createVerificationPayload example_env example_wallet 1793664000 =
     Inr (keccak256 example_env (tuple_encoding 0xaa 0x1bb 1793664000),
          ''signed '' @ keccak256 example_env (tuple_encoding 0xaa 0x1bb 1793664000)) \<and>
   length (tuple_encoding 0xaa 0x1bb 1793664000) = 72 \<and>
   tuple_encoding 0x1bb 0xaa 1793664000 \<noteq> tuple_encoding 0xaa 0x1bb 1793664000"
proof -
  have i: "getAddress example_env (issuerAddress example_env) = Some 0xaa"
    by (simp add: example_env_def)
  have s: "getAddress example_env example_wallet = Some 0x1bb"
    by (simp add: example_env_def example_wallet_def example_issuer_def)
  have sg: "signMessage example_env h = Some (''signed '' @ h)" for h
    by (simp add: example_env_def)
  have ne: "\<not> ((0x1bb :: 160 word) = 0xaa \<and> (0xaa :: 160 word) = 0x1bb \<and> (1793664000 :: int) = 1793664000)"
    by simp
  from digest_is_hash_of_tuple_encoding [OF i s, of 1793664000] ne
  show ?thesis
    by (simp add: sg)
qed

section \<open>Runs of the server\<close>

lemma run_Nil: "run e s [] = s"
  by (simp add: run_def)

lemma run_Cons: "run e s (ev # evs) = run e (fire e s ev) evs"
  by (simp add: run_def)

lemma run_append: "run e s (xs @ ys) = run e (run e s xs) ys"
  by (simp add: run_def)

lemma run_calls_snoc: "run_calls e s (cs @ [c]) = run e (run_calls e s cs) (steps_of c)"
  by (simp add: run_calls_def run_append)

lemma submit_invalid:
  assumes "selects s = []" and "submit_check e v = None"
  shows "run e s [SubmitRequest v False, SelectCallback 0 False] =
           s\<lparr>replies := replies s @ [reply (invalid_submit (tbl s))]\<rparr>"
  using assms by (simp add: run_Cons run_Nil)

lemma submit_valid:
  assumes "selects s = []" and "submit_check e v = Some w"
  shows "run e s [SubmitRequest v False, SelectCallback 0 False] =
           s\<lparr>tbl := table_after (submit_callback (Inr (tbl s w)) False (tbl s) w),
             timers := timers s @ scheduled (submit_callback (Inr (tbl s w)) False (tbl s) w),
             replies := replies s @ [reply (submit_callback (Inr (tbl s w)) False (tbl s) w)],
             stmts := stmts s @ SelectStatus w #
                        issued (submit_callback (Inr (tbl s w)) False (tbl s) w)\<rparr>"
  using assms by (simp add: run_Cons run_Nil Let_def db_get_def remove_nth_def)

lemma callback_accept:
  assumes "r = None \<or> (\<exists>x. r = Some x \<and> status x \<noteq> ''Pending'' \<and> status x \<noteq> ''Verified'')"
  shows "submit_callback (Inr r) f t w = accepted f t w"
  using assms by (auto simp: submit_callback_def)

lemma callback_conflict:
  assumes "r = Some x" and "status x = ''Pending'' \<or> status x = ''Verified''"
  shows "submit_callback (Inr r) f t w = conflict t (status x)"
  using assms by (auto simp: submit_callback_def)


lemma set_remove_nth:
  assumes d: "distinct xs" and i: "i < length xs"
  shows "set (remove_nth i xs) = set xs - {xs ! i}"
proof -
  have xs: "xs = take i xs @ xs ! i # drop (Suc i) xs"
    using i by (rule id_take_nth_drop)
  then have "distinct (take i xs @ xs ! i # drop (Suc i) xs)"
    using d by simp
  then have out: "xs ! i \<notin> set (take i xs)" "xs ! i \<notin> set (drop (Suc i) xs)"
    by auto
  have "set xs = set (take i xs @ xs ! i # drop (Suc i) xs)"
    using xs by simp
  then have "set xs = set (take i xs) \<union> {xs ! i} \<union> set (drop (Suc i) xs)"
    by simp
  with out show ?thesis
    by (auto simp: remove_nth_def)
qed

lemma distinct_remove_nth:
  assumes d: "distinct xs"
  shows "distinct (remove_nth i xs)"
proof -
  have "distinct (take i xs @ drop i xs)"
    using d by simp
  then have disj: "set (take i xs) \<inter> set (drop i xs) = {}"
    by (simp only: distinct_append)
  have "drop (Suc i) xs = drop 1 (drop i xs)"
    by simp
  then have "set (drop (Suc i) xs) \<subseteq> set (drop i xs)"
    by (metis set_drop_subset)
  with disj have "set (take i xs) \<inter> set (drop (Suc i) xs) = {}"
    by blast
  then show ?thesis
    using d by (simp add: remove_nth_def)
qed

lemma settled_submit:
  assumes st: "settled s"
  shows "settled (run e s [SubmitRequest v False, SelectCallback 0 False])"
proof -
  have sel: "selects s = []" and dist: "distinct (timers s)"
    and ok: "\<And>w. record_ok (tbl s w) (w \<in> set (timers s))"
    using st by (simp_all add: settled_def)
  show ?thesis
  proof (cases "submit_check e v")
    case None
    show ?thesis
      using st by (simp add: submit_invalid [OF sel None] settled_def)
  next
    case (Some w)
    note eff = submit_valid [OF sel Some]
    show ?thesis
    proof (cases "\<exists>x. tbl s w = Some x \<and> (status x = ''Pending'' \<or> status x = ''Verified'')")
      case True
      then obtain x where x: "tbl s w = Some x" "status x = ''Pending'' \<or> status x = ''Verified''"
        by blast
      have "submit_callback (Inr (tbl s w)) False (tbl s) w = conflict (tbl s) (status x)"
        by (rule callback_conflict [OF x])
      then show ?thesis
        using st by (simp add: eff conflict_def settled_def)
    next
      case False
      then have acc: "tbl s w = None \<or>
          (\<exists>x. tbl s w = Some x \<and> status x \<noteq> ''Pending'' \<and> status x \<noteq> ''Verified'')"
        by (cases "tbl s w") auto
      have cb: "submit_callback (Inr (tbl s w)) False (tbl s) w = accepted False (tbl s) w"
        by (rule callback_accept [OF acc])
      have fresh: "w \<notin> set (timers s)"
        using ok [of w] acc by (auto simp: pending_row_def)
      have "record_ok (((tbl s)(w \<mapsto> pending_row)) w') (w' \<in> set (timers s @ [w]))" for w'
        using ok [of w'] by (cases "w' = w") simp_all
      then show ?thesis
        using sel dist fresh
        by (simp add: eff cb accepted_def insert_or_replace_pending_def settled_def)
    qed
  qed
qed

lemma process_result:
  "processVerification e now sent confirmed f t w = (UpdateFailed w, update_failed f t w) \<or>
   (\<exists>h tx. processVerification e now sent confirmed f t w =
      (UpdateVerified w h (now div 1000 + 365 * 24 * 60 * 60) tx,
       update_verified f t w h (now div 1000 + 365 * 24 * 60 * 60) tx))"
  by (simp add: processVerification_def Let_def split: sum.splits prod.splits)

lemma settled_process:
  assumes st: "settled s"
  shows "settled (run e s [TimerFires i now sent confirmed False])"
proof (cases "i < length (timers s)")
  case False
  then show ?thesis using st by (simp add: run_Cons run_Nil)
next
  case True
  define w where "w = timers s ! i"
  have sel: "selects s = []" and dist: "distinct (timers s)"
    and ok: "\<And>w. record_ok (tbl s w) (w \<in> set (timers s))"
    using st by (simp_all add: settled_def)
  have mem: "w \<in> set (timers s)"
    using True by (simp add: w_def)
  have row: "tbl s w = Some pending_row"
    using ok [of w] mem by (cases "tbl s w") auto
  have rest: "set (remove_nth i (timers s)) = set (timers s) - {w}"
    unfolding w_def by (rule set_remove_nth [OF dist True])
  have dist': "distinct (remove_nth i (timers s))"
    by (rule distinct_remove_nth [OF dist])
  have eff: "run e s [TimerFires i now sent confirmed False] =
      s\<lparr>tbl := snd (processVerification e now sent confirmed False (tbl s) w),
        timers := remove_nth i (timers s),
        stmts := stmts s @ [fst (processVerification e now sent confirmed False (tbl s) w)]\<rparr>"
    using True by (simp add: run_Cons run_Nil Let_def w_def)
  from process_result [of e now sent confirmed False "tbl s" w]
  show ?thesis
  proof
    assume p: "processVerification e now sent confirmed False (tbl s) w =
                 (UpdateFailed w, update_failed False (tbl s) w)"
    have "record_ok (update_failed False (tbl s) w w') (w' \<in> set (timers s) - {w})" for w'
      using ok [of w'] row
      by (cases "w' = w") (simp_all add: update_failed_def pending_row_def none_set_def)
    then show ?thesis
      using sel dist' by (simp add: eff p rest settled_def)
  next
    assume "\<exists>h tx. processVerification e now sent confirmed False (tbl s) w =
              (UpdateVerified w h (now div 1000 + 365 * 24 * 60 * 60) tx,
               update_verified False (tbl s) w h (now div 1000 + 365 * 24 * 60 * 60) tx)"
    then obtain h tx where p: "processVerification e now sent confirmed False (tbl s) w =
              (UpdateVerified w h (now div 1000 + 365 * 24 * 60 * 60) tx,
               update_verified False (tbl s) w h (now div 1000 + 365 * 24 * 60 * 60) tx)"
      by blast
    have "record_ok (update_verified False (tbl s) w h x tx w') (w' \<in> set (timers s) - {w})" for w' x
      using ok [of w'] row
      by (cases "w' = w") (simp_all add: update_verified_def pending_row_def all_set_def)
    then show ?thesis
      using sel dist' by (simp add: eff p rest settled_def)
  qed
qed

lemma settled_query:
  assumes "settled s"
  shows "settled (run e s [StatusRequest w False])"
  using assms by (simp add: run_Cons run_Nil Let_def settled_def)

lemma settled_call: "settled s \<Longrightarrow> settled (run e s (steps_of c))"
  by (cases c) (simp_all add: settled_submit settled_process settled_query)

lemma settled_init: "settled init"
  by (simp add: settled_def init_def)

lemma settled_run_calls: "settled (run_calls e init cs)"
proof (induction cs rule: rev_induct)
  case Nil
  show ?case by (simp add: run_calls_def run_Nil settled_init)
next
  case (snoc c cs)
  then show ?case by (simp add: run_calls_snoc settled_call)
qed


lemma settled_step:
  assumes st: "settled s"
  shows "tbl (run e s (steps_of c)) w = tbl s w \<or>
         (tbl s w = Some pending_row \<and>
            (\<exists>r'. tbl (run e s (steps_of c)) w = Some r' \<and> status r' = ''Verified'' \<and> all_set r')) \<or>
         (tbl s w = Some pending_row \<and>
            tbl (run e s (steps_of c)) w = Some (pending_row\<lparr>status := ''Failed''\<rparr>)) \<or>
         ((tbl s w = None \<or> (\<exists>r. tbl s w = Some r \<and> status r = ''Failed'' \<and> none_set r)) \<and>
            tbl (run e s (steps_of c)) w = Some pending_row)"
proof -
  have sel: "selects s = []" and dist: "distinct (timers s)"
    and ok: "\<And>w. record_ok (tbl s w) (w \<in> set (timers s))"
    using st by (simp_all add: settled_def)
  show ?thesis
  proof (cases c)
    case (Query q)
    then show ?thesis by (simp add: run_Cons run_Nil Let_def)
  next
    case (Submit v)
    show ?thesis
    proof (cases "submit_check e v")
      case None
      then show ?thesis using Submit by (simp add: submit_invalid [OF sel])
    next
      case (Some u)
      note eff = submit_valid [OF sel Some]
      show ?thesis
      proof (cases "\<exists>x. tbl s u = Some x \<and> (status x = ''Pending'' \<or> status x = ''Verified'')")
        case True
        then obtain x where x: "tbl s u = Some x" "status x = ''Pending'' \<or> status x = ''Verified''"
          by blast
        have "submit_callback (Inr (tbl s u)) False (tbl s) u = conflict (tbl s) (status x)"
          by (rule callback_conflict [OF x])
        then show ?thesis
          using Submit by (simp add: eff conflict_def)
      next
        case False
        then have acc: "tbl s u = None \<or>
            (\<exists>x. tbl s u = Some x \<and> status x \<noteq> ''Pending'' \<and> status x \<noteq> ''Verified'')"
          by (cases "tbl s u") auto
        have cb: "submit_callback (Inr (tbl s u)) False (tbl s) u = accepted False (tbl s) u"
          by (rule callback_accept [OF acc])
        have t': "tbl (run e s (steps_of c)) = (tbl s)(u \<mapsto> pending_row)"
          using Submit by (simp add: eff cb accepted_def insert_or_replace_pending_def)
        show ?thesis
        proof (cases "w = u")
          case False
          then show ?thesis by (simp add: t')
        next
          case True
          have "tbl s u = None \<or> (\<exists>r. tbl s u = Some r \<and> status r = ''Failed'' \<and> none_set r)"
            using ok [of u] acc by (auto simp: pending_row_def)
          then show ?thesis using True by (simp add: t')
        qed
      qed
    qed
  next
    case (Process i now sent confirmed)
    show ?thesis
    proof (cases "i < length (timers s)")
      case False
      then show ?thesis using Process by (simp add: run_Cons run_Nil)
    next
      case True
      define u where "u = timers s ! i"
      have mem: "u \<in> set (timers s)"
        using True by (simp add: u_def)
      have row: "tbl s u = Some pending_row"
        using ok [of u] mem by (cases "tbl s u") auto
      have t': "tbl (run e s (steps_of c)) = snd (processVerification e now sent confirmed False (tbl s) u)"
        using True Process by (simp add: run_Cons run_Nil Let_def u_def)
      from process_result [of e now sent confirmed False "tbl s" u]
      show ?thesis
      proof
        assume p: "processVerification e now sent confirmed False (tbl s) u =
                     (UpdateFailed u, update_failed False (tbl s) u)"
        show ?thesis
          using row by (cases "w = u") (simp_all add: t' p update_failed_def)
      next
        assume "\<exists>h tx. processVerification e now sent confirmed False (tbl s) u =
                  (UpdateVerified u h (now div 1000 + 365 * 24 * 60 * 60) tx,
                   update_verified False (tbl s) u h (now div 1000 + 365 * 24 * 60 * 60) tx)"
        then obtain h tx where p: "processVerification e now sent confirmed False (tbl s) u =
                  (UpdateVerified u h (now div 1000 + 365 * 24 * 60 * 60) tx,
                   update_verified False (tbl s) u h (now div 1000 + 365 * 24 * 60 * 60) tx)"
          by blast
        show ?thesis
          using row by (cases "w = u") (simp_all add: t' p update_verified_def all_set_def)
      qed
    qed
  qed
qed

lemma settled_rows:
  assumes st: "settled s" and r: "tbl s w = Some r"
  shows "(status r = ''Verified'' \<and> all_set r) \<or>
         ((status r = ''Pending'' \<or> status r = ''Failed'') \<and> none_set r)"
proof -
  have "record_ok (tbl s w) (w \<in> set (timers s))"
    using st by (simp add: settled_def)
  then show ?thesis
    using r by (auto simp: pending_row_def none_set_def)
qed

lemma one_write_init: "one_write init"
  by (simp add: one_write_def init_def)

lemma one_write_more:
  assumes "one_write s" and "tbl s' = tbl s" and "set (stmts s) \<subseteq> set (stmts s')"
  shows "one_write s'"
  using assms unfolding one_write_def by (metis subsetD)

lemma one_write_row:
  assumes "one_write s" and "tbl s w = Some r"
  shows "none_set r \<or>
         (\<exists>h x tx. UpdateVerified w h x tx \<in> set (stmts s @ extra) \<and>
                    hash r = Some h \<and> expiry r = Some x \<and> txHash r = Some tx)"
  using assms unfolding one_write_def by fastforce

lemma one_write_callback:
  assumes ow: "one_write s"
  shows "one_write (fire e s (SelectCallback i f))"
proof (cases "i < length (selects s)")
  case False
  then show ?thesis using assms by simp
next
  case True
  define w where "w = fst (selects s ! i)"
  define res where "res = submit_callback (snd (selects s ! i)) f (tbl s) w"
  have t: "table_after res = tbl s \<or> table_after res = (tbl s)(w \<mapsto> pending_row)"
    by (auto simp: res_def submit_callback_def database_error_def conflict_def accepted_def
          insert_or_replace_pending_def split: sum.splits option.splits)
  have eff: "tbl (fire e s (SelectCallback i f)) = table_after res"
    "stmts (fire e s (SelectCallback i f)) = stmts s @ issued res"
    using True by (simp_all add: Let_def res_def w_def)
  show ?thesis
    unfolding one_write_def eff
  proof (intro allI impI)
    fix u r
    assume r: "table_after res u = Some r"
    show "none_set r \<or>
          (\<exists>h x tx. UpdateVerified u h x tx \<in> set (stmts s @ issued res) \<and>
                     hash r = Some h \<and> expiry r = Some x \<and> txHash r = Some tx)"
    proof (cases "tbl s u = Some r")
      case True
      then show ?thesis by (rule one_write_row [OF ow])
    next
      case False
      with t r have "r = pending_row"
        by (auto split: if_splits)
      then show ?thesis by (simp add: pending_row_def none_set_def)
    qed
  qed
qed

lemma one_write_timer:
  assumes ow: "one_write s"
  shows "one_write (fire e s (TimerFires i now sent confirmed f))"
proof (cases "i < length (timers s)")
  case False
  then show ?thesis using assms by simp
next
  case True
  define w where "w = timers s ! i"
  define p where "p = processVerification e now sent confirmed f (tbl s) w"
  have eff: "tbl (fire e s (TimerFires i now sent confirmed f)) = snd p"
    "stmts (fire e s (TimerFires i now sent confirmed f)) = stmts s @ [fst p]"
    using True by (simp_all add: Let_def w_def p_def)
  show ?thesis
    unfolding one_write_def eff
  proof (intro allI impI)
    fix u r
    assume r: "snd p u = Some r"
    from process_result [of e now sent confirmed f "tbl s" w]
    show "none_set r \<or>
          (\<exists>h x tx. UpdateVerified u h x tx \<in> set (stmts s @ [fst p]) \<and>
                     hash r = Some h \<and> expiry r = Some x \<and> txHash r = Some tx)"
    proof
      assume "processVerification e now sent confirmed f (tbl s) w =
                (UpdateFailed w, update_failed f (tbl s) w)"
      then have "update_failed f (tbl s) w u = Some r"
        using r by (simp add: p_def)
      then obtain r0 where r0: "tbl s u = Some r0" and same: "hash r = hash r0"
          "expiry r = expiry r0" "txHash r = txHash r0"
        by (auto simp: update_failed_def split: if_splits option.splits)
      from one_write_row [OF ow r0, of "[fst p]"] same show ?thesis
        by (simp add: none_set_def)
    next
      assume "\<exists>h tx. processVerification e now sent confirmed f (tbl s) w =
                (UpdateVerified w h (now div 1000 + 365 * 24 * 60 * 60) tx,
                 update_verified f (tbl s) w h (now div 1000 + 365 * 24 * 60 * 60) tx)"
      then obtain h tx where pv: "p =
                (UpdateVerified w h (now div 1000 + 365 * 24 * 60 * 60) tx,
                 update_verified f (tbl s) w h (now div 1000 + 365 * 24 * 60 * 60) tx)"
        unfolding p_def by blast
      show ?thesis
      proof (cases "tbl s u = Some r")
        case True
        then show ?thesis by (rule one_write_row [OF ow])
      next
        case False
        with r have "u = w \<and> hash r = Some h \<and>
            expiry r = Some (now div 1000 + 365 * 24 * 60 * 60) \<and> txHash r = Some tx"
          by (auto simp: pv update_verified_def split: if_splits option.splits)
        then show ?thesis by (auto simp: pv)
      qed
    qed
  qed
qed

lemma one_write_fire: "one_write s \<Longrightarrow> one_write (fire e s ev)"
proof (cases ev)
  case (SubmitRequest v f)
  assume "one_write s"
  then show ?thesis
    by (rule one_write_more) (auto simp: SubmitRequest split: option.splits)
next
  case (SelectCallback i f)
  assume "one_write s"
  then show ?thesis unfolding SelectCallback by (rule one_write_callback)
next
  case (TimerFires i now sent confirmed f)
  assume "one_write s"
  then show ?thesis unfolding TimerFires by (rule one_write_timer)
next
  case (StatusRequest w f)
  assume "one_write s"
  then show ?thesis
    by (rule one_write_more) (auto simp: StatusRequest Let_def)
qed

lemma one_write_run: "one_write s \<Longrightarrow> one_write (run e s evs)"
  by (induction evs arbitrary: s) (simp_all add: run_Nil run_Cons one_write_fire)

lemma awaiting_settled:
  "processVerification_awaiting e now (Settles sent) (Settles confirmed) f t w =
     (Some (fst (processVerification e now sent confirmed f t w)),
      snd (processVerification e now sent confirmed f t w))"
  by (simp add: processVerification_awaiting_def processVerification_def Let_def
        split: sum.splits prod.splits)

section \<open>Completion of a record\<close>

text \<open>
  C2, as the claim states it, fails: neither UPDATE tests the record's state. Two submit
  requests for one wallet whose SELECTs both run before either callback are both
  accepted and both scheduled. When the first processing succeeds the record becomes
  Verified; when the second then fails, the UPDATE of the failure path turns this
  Verified record into Failed.
\<close>

theorem completion_on_verified_record_counterexample:
  "tbl (run example_env init
          [SubmitRequest (JStr example_wallet) False, SubmitRequest (JStr example_wallet) False,
           SelectCallback 0 False, SelectCallback 0 False,
           TimerFires 0 1762128000000 (Inr ''0xt1'') (Inr ()) False]) example_wallet =
     Some \<lparr>hash = Some (keccak256 example_env (tuple_encoding 0xaa 0x1bb 1793664000)),
           expiry = Some 1793664000, txHash = Some ''0xt1'', status = ''Verified''\<rparr> \<and>
   tbl (run example_env init
          [SubmitRequest (JStr example_wallet) False, SubmitRequest (JStr example_wallet) False,
           SelectCallback 0 False, SelectCallback 0 False,
           TimerFires 0 1762128000000 (Inr ''0xt1'') (Inr ()) False,
           TimerFires 0 1762128001000 (Inl Reverted) (Inr ()) False]) example_wallet =
     Some \<lparr>hash = Some (keccak256 example_env (tuple_encoding 0xaa 0x1bb 1793664000)),
           expiry = Some 1793664000, txHash = Some ''0xt1'', status = ''Failed''\<rparr>"
  by code_simp

text \<open>
  C2, amended. The UPDATE after a confirmed transaction sets the record to Verified with
  hash, expiry and txHash, and the UPDATE of the failure path sets the record's status to
  Failed, on whatever record the wallet has, whatever its state; on a Pending record
  these are the transitions from Pending to Verified and to Failed. When the wallet has
  no record, processing changes nothing.
\<close>

theorem completion_updates_any_record:
  "(t w = None \<longrightarrow> snd (processVerification e now sent confirmed f t w) = t) \<and>
   (\<forall>r. t w = Some r \<longrightarrow>
      ((\<exists>err. createVerificationPayload e w (now div 1000 + 365 * 24 * 60 * 60) = Inl err) \<or>
       (\<exists>err. sent = Inl err) \<or> (\<exists>err. confirmed = Inl err) \<longrightarrow>
         processVerification e now sent confirmed False t w =
           (UpdateFailed w, t(w \<mapsto> r\<lparr>status := ''Failed''\<rparr>))) \<and>
      (\<forall>h sg tx. createVerificationPayload e w (now div 1000 + 365 * 24 * 60 * 60) = Inr (h, sg) \<longrightarrow>
         processVerification e now (Inr tx) (Inr ()) False t w =
           (UpdateVerified w h (now div 1000 + 365 * 24 * 60 * 60) tx,
            t(w \<mapsto> r\<lparr>status := ''Verified'', hash := Some h,
                      expiry := Some (now div 1000 + 365 * 24 * 60 * 60),
                      txHash := Some tx\<rparr>))))"
  by (auto simp: processVerification_def update_verified_def update_failed_def Let_def
           split: sum.splits prod.splits)

theorem completion_updates_any_record_witness:
  "processVerification example_env 1762128000000 (Inl SubmissionError) (Inr ()) False
     [example_wallet \<mapsto> pending_row] example_wallet =
     (UpdateFailed example_wallet, [example_wallet \<mapsto> pending_row\<lparr>status := ''Failed''\<rparr>]) \<and>
   processVerification example_env 1762128000000 (Inr ''0xt1'') (Inr ()) False
     [example_wallet \<mapsto> pending_row] example_wallet =
     (UpdateVerified example_wallet
        (keccak256 example_env (tuple_encoding 0xaa 0x1bb 1793664000)) 1793664000 ''0xt1'',
      [example_wallet \<mapsto>
         pending_row\<lparr>status := ''Verified'',
                     hash := Some (keccak256 example_env (tuple_encoding 0xaa 0x1bb 1793664000)),
                     expiry := Some 1793664000, txHash := Some ''0xt1''\<rparr>]) \<and>
   snd (processVerification example_env 1762128000000 (Inr ''0xt1'') (Inr ()) False
          Map.empty example_wallet) = Map.empty"
proof -
  have row: "[example_wallet \<mapsto> pending_row] example_wallet = Some pending_row"
    by simp
  have none: "(Map.empty :: table) example_wallet = None"
    by simp
  have pay: "createVerificationPayload example_env example_wallet
               (1762128000000 div 1000 + 365 * 24 * 60 * 60) =
             Inr (keccak256 example_env (tuple_encoding 0xaa 0x1bb 1793664000),
                  ''signed '' @ keccak256 example_env (tuple_encoding 0xaa 0x1bb 1793664000))"
    by code_simp
  have fail: "\<exists>err. (Inl SubmissionError :: ledger_error + string) = Inl err"
    by simp
  from completion_updates_any_record
         [of "[example_wallet \<mapsto> pending_row]" example_wallet example_env 1762128000000
             "Inl SubmissionError" "Inr ()" False]
       completion_updates_any_record
         [of Map.empty example_wallet example_env 1762128000000 "Inr ''0xt1''" "Inr ()" False]
       row none pay fail
  show ?thesis
    by simp
qed

section \<open>The terminal fields\<close>

text \<open>
  C3, as the claim states it, fails: the fields are not written only in the transition
  from Pending to Verified, nor once. After two overlapping submit requests for one
  wallet, both accepted, the first successful processing writes the three fields and the
  second writes them again, on the record that is already Verified.
\<close>

theorem terminal_fields_rewritten_counterexample:
  "tbl (run example_env init
          [SubmitRequest (JStr example_wallet) False, SubmitRequest (JStr example_wallet) False,
           SelectCallback 0 False, SelectCallback 0 False,
           TimerFires 0 1762128000000 (Inr ''0xt1'') (Inr ()) False]) example_wallet =
     Some \<lparr>hash = Some (keccak256 example_env (tuple_encoding 0xaa 0x1bb 1793664000)),
           expiry = Some 1793664000, txHash = Some ''0xt1'', status = ''Verified''\<rparr> \<and>
   tbl (run example_env init
          [SubmitRequest (JStr example_wallet) False, SubmitRequest (JStr example_wallet) False,
           SelectCallback 0 False, SelectCallback 0 False,
           TimerFires 0 1762128000000 (Inr ''0xt1'') (Inr ()) False,
           TimerFires 0 1762128001000 (Inr ''0xt2'') (Inr ()) False]) example_wallet =
     Some \<lparr>hash = Some (keccak256 example_env (tuple_encoding 0xaa 0x1bb 1793664001)),
           expiry = Some 1793664001, txHash = Some ''0xt2'', status = ''Verified''\<rparr>"
  by code_simp

text \<open>
  C3, amended. The three fields are written together and atomically: the UPDATE that sets
  Verified replaces all three at once with the hash, the expiry and the transaction hash
  of that one processing run, whatever the record's state (it is not conditioned on
  Pending, so with overlapping submissions it can run twice on a record); the INSERT of an
  accepted submission stores all three as NULL; the transition to Failed never sets or
  changes any of them. No reachable record is split between old and new terminal fields:
  in every state the server can reach, whatever the interleaving and the sqlite errors,
  the three fields of a record are all NULL or are the three values of one and the same
  UPDATE. In runs whose calls do not overlap and meet no sqlite error, moreover: a
  Verified record has all three fields and a Pending or Failed record has none; a call
  changes the fields of a record only by taking it from Pending, with no field, to
  Verified, with all three; and a Verified record never changes again, so the fields are
  written once.
\<close>

theorem terminal_fields_written_together:
  "(\<forall>w r. tbl (run e init evs) w = Some r \<longrightarrow>
      (hash r = None \<and> expiry r = None \<and> txHash r = None) \<or>
      (\<exists>h x tx. UpdateVerified w h x tx \<in> set (stmts (run e init evs)) \<and>
                 hash r = Some h \<and> expiry r = Some x \<and> txHash r = Some tx)) \<and>
   (\<forall>now sent confirmed t w r h x tx.
      t w = Some r \<and>
      fst (processVerification e now sent confirmed False t w) = UpdateVerified w h x tx \<longrightarrow>
      snd (processVerification e now sent confirmed False t w) =
        t(w \<mapsto> r\<lparr>status := ''Verified'', hash := Some h, expiry := Some x,
                  txHash := Some tx\<rparr>)) \<and>
   (\<forall>now sent confirmed f t w w'.
      fst (processVerification e now sent confirmed f t w) = UpdateFailed w \<longrightarrow>
      map_option hash (snd (processVerification e now sent confirmed f t w) w') =
        map_option hash (t w') \<and>
      map_option expiry (snd (processVerification e now sent confirmed f t w) w') =
        map_option expiry (t w') \<and>
      map_option txHash (snd (processVerification e now sent confirmed f t w) w') =
        map_option txHash (t w')) \<and>
   (\<forall>f t w. insert_or_replace_pending f t w = t \<or>
      insert_or_replace_pending f t w =
        t(w \<mapsto> \<lparr>hash = None, expiry = None, txHash = None, status = ''Pending''\<rparr>)) \<and>
   (\<forall>w r. tbl (run_calls e init cs) w = Some r \<longrightarrow>
      (status r = ''Verified'' \<and> hash r \<noteq> None \<and> expiry r \<noteq> None \<and> txHash r \<noteq> None) \<or>
      ((status r = ''Pending'' \<or> status r = ''Failed'') \<and>
       hash r = None \<and> expiry r = None \<and> txHash r = None)) \<and>
   (\<forall>c w r'. tbl (run_calls e init (cs @ [c])) w = Some r' \<longrightarrow>
      (hash r' = None \<and> expiry r' = None \<and> txHash r' = None) \<or>
      (\<exists>r. tbl (run_calls e init cs) w = Some r \<and>
           hash r' = hash r \<and> expiry r' = expiry r \<and> txHash r' = txHash r) \<or>
      (\<exists>r. tbl (run_calls e init cs) w = Some r \<and> status r = ''Pending'' \<and>
           hash r = None \<and> expiry r = None \<and> txHash r = None \<and>
           status r' = ''Verified'' \<and>
           hash r' \<noteq> None \<and> expiry r' \<noteq> None \<and> txHash r' \<noteq> None)) \<and>
   (\<forall>c w r. tbl (run_calls e init cs) w = Some r \<and> status r = ''Verified'' \<longrightarrow>
      tbl (run_calls e init (cs @ [c])) w = Some r)"
proof (intro conjI allI impI)
  fix w r
  assume r: "tbl (run e init evs) w = Some r"
  have "one_write (run e init evs)"
    by (rule one_write_run [OF one_write_init])
  from one_write_row [OF this r, of "[]"]
  show "(hash r = None \<and> expiry r = None \<and> txHash r = None) \<or>
        (\<exists>h x tx. UpdateVerified w h x tx \<in> set (stmts (run e init evs)) \<and>
                   hash r = Some h \<and> expiry r = Some x \<and> txHash r = Some tx)"
    by (simp add: none_set_def)
next
  fix now sent confirmed t w r h x tx
  assume a: "t w = Some r \<and>
      fst (processVerification e now sent confirmed False t w) = UpdateVerified w h x tx"
  from process_result [of e now sent confirmed False t w] a
  show "snd (processVerification e now sent confirmed False t w) =
          t(w \<mapsto> r\<lparr>status := ''Verified'', hash := Some h, expiry := Some x,
                    txHash := Some tx\<rparr>)"
    by (auto simp: update_verified_def)
next
  fix now sent confirmed f t w w'
  assume a: "fst (processVerification e now sent confirmed f t w) = UpdateFailed w"
  have p: "snd (processVerification e now sent confirmed f t w) = update_failed f t w"
    using process_result [of e now sent confirmed f t w] a by auto
  show "map_option hash (snd (processVerification e now sent confirmed f t w) w') =
          map_option hash (t w')"
    and "map_option expiry (snd (processVerification e now sent confirmed f t w) w') =
          map_option expiry (t w')"
    and "map_option txHash (snd (processVerification e now sent confirmed f t w) w') =
          map_option txHash (t w')"
    unfolding p by (simp_all add: update_failed_def split: option.splits)
next
  fix f t w
  show "insert_or_replace_pending f t w = t \<or>
        insert_or_replace_pending f t w =
          t(w \<mapsto> \<lparr>hash = None, expiry = None, txHash = None, status = ''Pending''\<rparr>)"
    by (simp add: insert_or_replace_pending_def pending_row_def)
next
  fix w r
  assume "tbl (run_calls e init cs) w = Some r"
  then have "(status r = ''Verified'' \<and> all_set r) \<or>
             ((status r = ''Pending'' \<or> status r = ''Failed'') \<and> none_set r)"
    by (rule settled_rows [OF settled_run_calls])
  then show "(status r = ''Verified'' \<and> hash r \<noteq> None \<and> expiry r \<noteq> None \<and> txHash r \<noteq> None) \<or>
             ((status r = ''Pending'' \<or> status r = ''Failed'') \<and>
              hash r = None \<and> expiry r = None \<and> txHash r = None)"
    by (simp add: all_set_def none_set_def)
next
  fix c w r'
  assume r': "tbl (run_calls e init (cs @ [c])) w = Some r'"
  let ?s = "run_calls e init cs"
  from settled_step [where s = "run_calls e init cs" and e = e and c = c and w = w,
                     OF settled_run_calls] r'
  show "(hash r' = None \<and> expiry r' = None \<and> txHash r' = None) \<or>
        (\<exists>r. tbl ?s w = Some r \<and>
             hash r' = hash r \<and> expiry r' = expiry r \<and> txHash r' = txHash r) \<or>
        (\<exists>r. tbl ?s w = Some r \<and> status r = ''Pending'' \<and>
             hash r = None \<and> expiry r = None \<and> txHash r = None \<and>
             status r' = ''Verified'' \<and>
             hash r' \<noteq> None \<and> expiry r' \<noteq> None \<and> txHash r' \<noteq> None)"
    unfolding run_calls_snoc
    by (elim disjE conjE exE)
       (auto simp: pending_row_def none_set_def all_set_def)
next
  fix c w r
  assume a: "tbl (run_calls e init cs) w = Some r \<and> status r = ''Verified''"
  from settled_step [where s = "run_calls e init cs" and e = e and c = c and w = w,
                     OF settled_run_calls] a
  show "tbl (run_calls e init (cs @ [c])) w = Some r"
    unfolding run_calls_snoc
    by (auto simp: pending_row_def)
qed

theorem terminal_fields_written_together_witness:
  "tbl (run example_env init
          [SubmitRequest (JStr example_wallet) False, SubmitRequest (JStr example_wallet) False,
           SelectCallback 0 False, SelectCallback 0 False,
           TimerFires 0 1762128000000 (Inr ''0xt1'') (Inr ()) False,
           TimerFires 0 1762128001000 (Inr ''0xt2'') (Inr ()) False]) example_wallet =
     Some \<lparr>hash = Some (keccak256 example_env (tuple_encoding 0xaa 0x1bb 1793664001)),
           expiry = Some 1793664001, txHash = Some ''0xt2'', status = ''Verified''\<rparr> \<and>
   UpdateVerified example_wallet
       (keccak256 example_env (tuple_encoding 0xaa 0x1bb 1793664001)) 1793664001 ''0xt2''
     \<in> set (stmts (run example_env init
          [SubmitRequest (JStr example_wallet) False, SubmitRequest (JStr example_wallet) False,
           SelectCallback 0 False, SelectCallback 0 False,
           TimerFires 0 1762128000000 (Inr ''0xt1'') (Inr ()) False,
           TimerFires 0 1762128001000 (Inr ''0xt2'') (Inr ()) False])) \<and>
   tbl (run_calls example_env init [Submit (JStr example_wallet)]) example_wallet =
     Some \<lparr>hash = None, expiry = None, txHash = None, status = ''Pending''\<rparr> \<and>
   tbl (run_calls example_env init
          ([Submit (JStr example_wallet)] @
           [Process 0 1762128000000 (Inr ''0xt1'') (Inr ())])) example_wallet =
     Some \<lparr>hash = Some (keccak256 example_env (tuple_encoding 0xaa 0x1bb 1793664000)),
           expiry = Some 1793664000, txHash = Some ''0xt1'', status = ''Verified''\<rparr>"
proof -
  have row: "tbl (run example_env init
          [SubmitRequest (JStr example_wallet) False, SubmitRequest (JStr example_wallet) False,
           SelectCallback 0 False, SelectCallback 0 False,
           TimerFires 0 1762128000000 (Inr ''0xt1'') (Inr ()) False,
           TimerFires 0 1762128001000 (Inr ''0xt2'') (Inr ()) False]) example_wallet =
     Some \<lparr>hash = Some (keccak256 example_env (tuple_encoding 0xaa 0x1bb 1793664001)),
           expiry = Some 1793664001, txHash = Some ''0xt2'', status = ''Verified''\<rparr>"
    by code_simp
  have before: "tbl (run_calls example_env init [Submit (JStr example_wallet)]) example_wallet =
                  Some \<lparr>hash = None, expiry = None, txHash = None, status = ''Pending''\<rparr>"
    by code_simp
  have after: "tbl (run_calls example_env init
                      ([Submit (JStr example_wallet)] @
                       [Process 0 1762128000000 (Inr ''0xt1'') (Inr ())])) example_wallet =
     Some \<lparr>hash = Some (keccak256 example_env (tuple_encoding 0xaa 0x1bb 1793664000)),
           expiry = Some 1793664000, txHash = Some ''0xt1'', status = ''Verified''\<rparr>"
    by code_simp
  from terminal_fields_written_together
         [of example_env
             "[SubmitRequest (JStr example_wallet) False,
               SubmitRequest (JStr example_wallet) False,
               SelectCallback 0 False, SelectCallback 0 False,
               TimerFires 0 1762128000000 (Inr ''0xt1'') (Inr ()) False,
               TimerFires 0 1762128001000 (Inr ''0xt2'') (Inr ()) False]"
             "[Submit (JStr example_wallet)]"]
       row
  have "UpdateVerified example_wallet
          (keccak256 example_env (tuple_encoding 0xaa 0x1bb 1793664001)) 1793664001 ''0xt2''
        \<in> set (stmts (run example_env init
          [SubmitRequest (JStr example_wallet) False, SubmitRequest (JStr example_wallet) False,
           SelectCallback 0 False, SelectCallback 0 False,
           TimerFires 0 1762128000000 (Inr ''0xt1'') (Inr ()) False,
           TimerFires 0 1762128001000 (Inr ''0xt2'') (Inr ()) False]))"
    by fastforce
  with row before after show ?thesis
    by blast
qed

section \<open>Failures while processing\<close>

text \<open>
  C4, as the claim states it, fails for the confirmation timeout: the code has none.
  \<open>tx.wait()\<close> is awaited with no bound, so for an accepted submission whose
  transaction was sent and is never confirmed, processing never reaches an UPDATE: it
  issues no statement and the record stays Pending.
\<close>

theorem unconfirmed_transaction_stays_pending_counterexample:
  "table_after (submit example_env False False Map.empty (JStr example_wallet)) example_wallet =
     Some \<lparr>hash = None, expiry = None, txHash = None, status = ''Pending''\<rparr> \<and>
   fst (processVerification_awaiting example_env 1762128000000 (Settles (Inr ''0xt1''))
          NeverSettles False
          (table_after (submit example_env False False Map.empty (JStr example_wallet)))
          example_wallet) = None \<and>
   snd (processVerification_awaiting example_env 1762128000000 (Settles (Inr ''0xt1''))
          NeverSettles False
          (table_after (submit example_env False False Map.empty (JStr example_wallet)))
          example_wallet) example_wallet =
     Some \<lparr>hash = None, expiry = None, txHash = None, status = ''Pending''\<rparr>"
  by code_simp

text \<open>
  C4, amended. After an accepted submission (the request got 202 and its INSERT
  succeeded), every failure that processing meets, whether the payload cannot be built,
  \<open>contract.addVerification\<close> rejects (submission error) or \<open>tx.wait()\<close> rejects
  (reverted transaction), reaches the one catch block, which issues the UPDATE to Failed:
  when sqlite accepts that UPDATE the record is Failed, not Pending, and the same holds on
  whatever record the wallet has by the time processing runs; when sqlite rejects it the
  error is only logged and the record stays as it was. There is no confirmation timeout:
  while \<open>contract.addVerification\<close> or \<open>tx.wait()\<close> never settles, processing issues
  no statement and the record stays Pending. The error is never surfaced to the
  submitter: the response is the 202 sent before processing began, and a processing run
  sends no response.
\<close>

theorem processing_failure_sets_failed:
  assumes acc: "code (reply (submit e False False t (JStr w))) = 202"
  shows "reply (submit e False False t (JStr w)) =
           \<lparr>code = 202,
            body = JObj [(''wallet'', JStr w), (''status'', JStr ''Pending''),
                         (''message'',
                          JStr ''Submission received. Verification is in progress.'')]\<rparr> \<and>
         scheduled (submit e False False t (JStr w)) = [w] \<and>
         table_after (submit e False False t (JStr w)) =
           t(w \<mapsto> \<lparr>hash = None, expiry = None, txHash = None, status = ''Pending''\<rparr>) \<and>
         (\<forall>now sending waiting.
            (\<exists>err. createVerificationPayload e w (now div 1000 + 365 * 24 * 60 * 60) = Inl err) \<or>
            (\<exists>err. sending = Settles (Inl err)) \<or>
            (\<exists>tx err. sending = Settles (Inr tx) \<and> waiting = Settles (Inl err)) \<longrightarrow>
            processVerification_awaiting e now sending waiting False
                (table_after (submit e False False t (JStr w))) w =
              (Some (UpdateFailed w),
               t(w \<mapsto> \<lparr>hash = None, expiry = None, txHash = None, status = ''Failed''\<rparr>)) \<and>
            processVerification_awaiting e now sending waiting True
                (table_after (submit e False False t (JStr w))) w =
              (Some (UpdateFailed w),
               t(w \<mapsto> \<lparr>hash = None, expiry = None, txHash = None, status = ''Pending''\<rparr>))) \<and>
         (\<forall>now sending waiting f p.
            createVerificationPayload e w (now div 1000 + 365 * 24 * 60 * 60) = Inr p \<and>
            (sending = NeverSettles \<or>
             (\<exists>tx. sending = Settles (Inr tx) \<and> waiting = NeverSettles)) \<longrightarrow>
            processVerification_awaiting e now sending waiting f
                (table_after (submit e False False t (JStr w))) w =
              (None,
               t(w \<mapsto> \<lparr>hash = None, expiry = None, txHash = None, status = ''Pending''\<rparr>))) \<and>
         (\<forall>now sending waiting t' r.
            t' w = Some r \<and>
            ((\<exists>err. createVerificationPayload e w (now div 1000 + 365 * 24 * 60 * 60) = Inl err) \<or>
             (\<exists>err. sending = Settles (Inl err)) \<or>
             (\<exists>tx err. sending = Settles (Inr tx) \<and> waiting = Settles (Inl err))) \<longrightarrow>
            processVerification_awaiting e now sending waiting False t' w =
              (Some (UpdateFailed w), t'(w \<mapsto> r\<lparr>status := ''Failed''\<rparr>))) \<and>
         (\<forall>now sent confirmed f t'.
            processVerification_awaiting e now (Settles sent) (Settles confirmed) f t' w =
              (Some (fst (processVerification e now sent confirmed f t' w)),
               snd (processVerification e now sent confirmed f t' w))) \<and>
         (\<forall>s i now sent confirmed f.
            replies (fire e s (TimerFires i now sent confirmed f)) = replies s)"
proof -
  have sub: "submit e False False t (JStr w) =
      \<lparr>reply = \<lparr>code = 202,
            body = JObj [(''wallet'', JStr w), (''status'', JStr ''Pending''),
                         (''message'',
                          JStr ''Submission received. Verification is in progress.'')]\<rparr>,
       table_after = t(w \<mapsto> \<lparr>hash = None, expiry = None, txHash = None, status = ''Pending''\<rparr>),
       issued = [SelectStatus w, InsertOrReplacePending w], scheduled = [w]\<rparr>"
    using acc
    by (auto simp: submit_def submit_check_def submit_callback_def db_get_def accepted_def
          accepted_body_def conflict_def invalid_submit_def insert_or_replace_pending_def
          pending_row_def Let_def
          split: option.splits if_splits)
  show ?thesis
    unfolding sub
    by (intro conjI allI;
        (rule awaiting_settled |
         auto simp: processVerification_awaiting_def update_failed_def Let_def
              split: sum.splits prod.splits))
qed

theorem processing_failure_sets_failed_witness:
  "processVerification_awaiting example_env 1762128000000 (Settles (Inr ''0xt1''))
       (Settles (Inl Reverted)) False
       (table_after (submit example_env False False Map.empty (JStr example_wallet)))
       example_wallet =
     (Some (UpdateFailed example_wallet),
      [example_wallet \<mapsto> \<lparr>hash = None, expiry = None, txHash = None, status = ''Failed''\<rparr>]) \<and>
   processVerification_awaiting example_env 1762128000000 (Settles (Inl SubmissionError))
       NeverSettles False
       (table_after (submit example_env False False Map.empty (JStr example_wallet)))
       example_wallet =
     (Some (UpdateFailed example_wallet),
      [example_wallet \<mapsto> \<lparr>hash = None, expiry = None, txHash = None, status = ''Failed''\<rparr>]) \<and>
   reply (submit example_env False False Map.empty (JStr example_wallet)) =
     \<lparr>code = 202,
      body = JObj [(''wallet'', JStr ''0x00000000000000000000000000000000000001bb''),
                   (''status'', JStr ''Pending''),
                   (''message'', JStr ''Submission received. Verification is in progress.'')]\<rparr>"
proof -
  have acc: "code (reply (submit example_env False False Map.empty (JStr example_wallet))) = 202"
    by code_simp
  note th = processing_failure_sets_failed [OF acc]
  from th
  have fails: "(\<exists>err. createVerificationPayload example_env example_wallet
                         (now div 1000 + 365 * 24 * 60 * 60) = Inl err) \<or>
               (\<exists>err. sending = Settles (Inl err)) \<or>
               (\<exists>tx err. sending = Settles (Inr tx) \<and> waiting = Settles (Inl err)) \<Longrightarrow>
      processVerification_awaiting example_env now sending waiting False
          (table_after (submit example_env False False Map.empty (JStr example_wallet)))
          example_wallet =
        (Some (UpdateFailed example_wallet),
         [example_wallet \<mapsto> \<lparr>hash = None, expiry = None, txHash = None, status = ''Failed''\<rparr>])"
    for now sending waiting
    by (elim conjE) (drule spec, drule spec, drule spec, drule mp, assumption, elim conjE,
                     assumption)
  have a: "processVerification_awaiting example_env 1762128000000 (Settles (Inr ''0xt1''))
       (Settles (Inl Reverted)) False
       (table_after (submit example_env False False Map.empty (JStr example_wallet)))
       example_wallet =
     (Some (UpdateFailed example_wallet),
      [example_wallet \<mapsto> \<lparr>hash = None, expiry = None, txHash = None, status = ''Failed''\<rparr>])"
    by (rule fails) simp
  have b: "processVerification_awaiting example_env 1762128000000 (Settles (Inl SubmissionError))
       NeverSettles False
       (table_after (submit example_env False False Map.empty (JStr example_wallet)))
       example_wallet =
     (Some (UpdateFailed example_wallet),
      [example_wallet \<mapsto> \<lparr>hash = None, expiry = None, txHash = None, status = ''Failed''\<rparr>])"
    by (rule fails) simp
  from th have c: "reply (submit example_env False False Map.empty (JStr example_wallet)) =
     \<lparr>code = 202,
      body = JObj [(''wallet'', JStr example_wallet), (''status'', JStr ''Pending''),
                   (''message'', JStr ''Submission received. Verification is in progress.'')]\<rparr>"
    by (elim conjE)
  from a b c show ?thesis
    by (simp add: example_wallet_def)
qed

section \<open>Submissions one after the other, and overlapping\<close>

text \<open>
  C5, as the claim states it, fails: the check (a SELECT) and the set (an INSERT in the
  SELECT's callback) are two statements, and nothing makes them atomic. When a second
  request's SELECT runs before the first request's callback, both read "no record" and
  both are accepted and scheduled.
\<close>

theorem overlapping_submits_counterexample:
  "replies (run example_env init
      [SubmitRequest (JStr example_wallet) False, SubmitRequest (JStr example_wallet) False,
       SelectCallback 0 False, SelectCallback 0 False]) =
     [\<lparr>code = 202, body = accepted_body example_wallet\<rparr>,
      \<lparr>code = 202, body = accepted_body example_wallet\<rparr>] \<and>
   timers (run example_env init
      [SubmitRequest (JStr example_wallet) False, SubmitRequest (JStr example_wallet) False,
       SelectCallback 0 False, SelectCallback 0 False]) = [example_wallet, example_wallet]"
  by code_simp

text \<open>
  C5, amended. When two submit calls for the same identity, with no record or a Failed
  one, run one after the other (the second call's SELECT after the first call's
  callback), exactly one is accepted: the first gets 202, the second gets 409 naming the
  state Pending that it observed, and the identity is scheduled once.
\<close>

theorem successive_submits_one_acceptance:
  assumes "isAddress e w" and "w \<noteq> []" and "selects s = []"
    and "tbl s w = None \<or> (\<exists>r. tbl s w = Some r \<and> status r = ''Failed'')"
  shows "replies (run_calls e s [Submit (JStr w), Submit (JStr w)]) =
           replies s @ [\<lparr>code = 202, body = accepted_body w\<rparr>,
                        \<lparr>code = 409, body = JObj [(''error'', JStr (conflict_message ''Pending''))]\<rparr>] \<and>
         timers (run_calls e s [Submit (JStr w), Submit (JStr w)]) = timers s @ [w] \<and>
         tbl (run_calls e s [Submit (JStr w), Submit (JStr w)]) = (tbl s)(w \<mapsto> pending_row)"
proof -
  have chk: "submit_check e (JStr w) = Some w"
    using assms(1,2) by (simp add: submit_check_def)
  have acc: "tbl s w = None \<or>
      (\<exists>x. tbl s w = Some x \<and> status x \<noteq> ''Pending'' \<and> status x \<noteq> ''Verified'')"
    using assms(4) by auto
  define s1 where "s1 = run e s [SubmitRequest (JStr w) False, SelectCallback 0 False]"
  have s1: "s1 = s\<lparr>tbl := (tbl s)(w \<mapsto> pending_row), timers := timers s @ [w],
                   replies := replies s @ [\<lparr>code = 202, body = accepted_body w\<rparr>],
                   stmts := stmts s @ [SelectStatus w, InsertOrReplacePending w]\<rparr>"
    unfolding s1_def
    by (simp add: submit_valid [OF assms(3) chk] callback_accept [OF acc] accepted_def
          insert_or_replace_pending_def)
  have sel1: "selects s1 = []"
    using assms(3) by (simp add: s1)
  have row1: "tbl s1 w = Some pending_row"
    by (simp add: s1)
  have pend: "status pending_row = ''Pending'' \<or> status pending_row = ''Verified''"
    by (simp add: pending_row_def)
  have cb2: "submit_callback (Inr (tbl s1 w)) False (tbl s1) w = conflict (tbl s1) ''Pending''"
    using callback_conflict [OF row1 pend] by (simp add: pending_row_def)
  have s2: "run e s1 [SubmitRequest (JStr w) False, SelectCallback 0 False] =
              s1\<lparr>replies := replies s1 @
                     [\<lparr>code = 409, body = JObj [(''error'', JStr (conflict_message ''Pending''))]\<rparr>],
                 stmts := stmts s1 @ [SelectStatus w]\<rparr>"
    by (simp add: submit_valid [OF sel1 chk] cb2 conflict_def)
  have "run_calls e s [Submit (JStr w), Submit (JStr w)] =
          run e s1 [SubmitRequest (JStr w) False, SelectCallback 0 False]"
    by (simp add: run_calls_def s1_def run_Cons run_Nil)
  then show ?thesis
    by (simp add: s2) (simp add: s1)
qed

theorem successive_submits_one_acceptance_witness:
  "replies (run_calls example_env init
              [Submit (JStr example_wallet), Submit (JStr example_wallet)]) =
     [\<lparr>code = 202, body = accepted_body example_wallet\<rparr>,
      \<lparr>code = 409,
       body = JObj [(''error'', JStr ''A verification for this wallet is already Pending.'')]\<rparr>] \<and>
   timers (run_calls example_env init
             [Submit (JStr example_wallet), Submit (JStr example_wallet)]) = [example_wallet]"
proof -
  have a: "isAddress example_env example_wallet"
    by (simp add: example_env_def)
  have b: "example_wallet \<noteq> []"
    by (simp add: example_wallet_def)
  have c: "selects init = []"
    by (simp add: init_def)
  have d: "tbl init example_wallet = None \<or>
           (\<exists>r. tbl init example_wallet = Some r \<and> status r = ''Failed'')"
    by (simp add: init_def)
  from successive_submits_one_acceptance [OF a b c d]
  show ?thesis
    by (simp add: init_def conflict_message_def)
qed

section \<open>Malformed identities\<close>

text \<open>
  C7. For a wallet text that \<open>ethers.isAddress\<close> rejects, the submit handler and the
  status handler both answer 400 and do nothing else: no SQL statement is issued, the
  table is as it was, and nothing is scheduled.
\<close>

theorem malformed_identity_rejected:
  assumes "\<not> isAddress e w"
  shows "submit e gf insf t (JStr w) =
           \<lparr>reply = \<lparr>code = 400,
                     body = JObj [(''error'', JStr ''Valid walletAddress is required.'')]\<rparr>,
            table_after = t, issued = [], scheduled = []\<rparr> \<and>
         status_handler e gf t w =
           \<lparr>reply = \<lparr>code = 400,
                     body = JObj [(''error'', JStr ''Invalid wallet address provided.'')]\<rparr>,
            table_after = t, issued = [], scheduled = []\<rparr> \<and>
         tbl (fire e s (SubmitRequest (JStr w) gf)) = tbl s \<and>
         selects (fire e s (SubmitRequest (JStr w) gf)) = selects s \<and>
         stmts (fire e s (SubmitRequest (JStr w) gf)) = stmts s \<and>
         stmts (fire e s (StatusRequest w gf)) = stmts s"
  using assms
  by (simp add: submit_def submit_check_def invalid_submit_def status_handler_def)

theorem malformed_identity_rejected_witness:
  "submit example_env False False [example_wallet \<mapsto> pending_row] (JStr ''0x123'') =
     \<lparr>reply = \<lparr>code = 400,
               body = JObj [(''error'', JStr ''Valid walletAddress is required.'')]\<rparr>,
      table_after = [example_wallet \<mapsto> pending_row], issued = [], scheduled = []\<rparr> \<and>
   status_handler example_env False [example_wallet \<mapsto> pending_row] ''0x123'' =
     \<lparr>reply = \<lparr>code = 400,
               body = JObj [(''error'', JStr ''Invalid wallet address provided.'')]\<rparr>,
      table_after = [example_wallet \<mapsto> pending_row], issued = [], scheduled = []\<rparr>"
proof -
  have bad: "\<not> isAddress example_env ''0x123''"
    by (simp add: example_env_def example_wallet_def example_issuer_def)
  from malformed_identity_rejected
         [OF bad, of False False "[example_wallet \<mapsto> pending_row]" init]
  show ?thesis
    by simp
qed

section \<open>The status query\<close>

text \<open>
  C8. For a well-formed wallet the status handler only reads: it issues one SELECT,
  leaves the table as it was and schedules nothing (so no ledger call follows from it).
  When the SELECT succeeds and finds no record it reports the status \<open>None\<close>; when it
  finds a record it reports the stored status, with the stored expiry and transaction
  hash where they are present (NULL, and the values 0 and empty text that JavaScript
  takes for absent, are reported as null). A Failed record is reported as Failed, never
  as \<open>None\<close>.
\<close>

theorem status_is_pure_read:
  assumes "isAddress e w"
  shows "table_after (status_handler e f t w) = t \<and>
         scheduled (status_handler e f t w) = [] \<and>
         issued (status_handler e f t w) = [SelectAll w] \<and>
         fire e s (StatusRequest w f) =
           s\<lparr>replies := replies s @ [reply (status_handler e f (tbl s) w)],
             stmts := stmts s @ [SelectAll w]\<rparr> \<and>
         (t w = None \<longrightarrow>
            reply (status_handler e False t w) =
              \<lparr>code = 200, body = JObj [(''wallet'', JStr w), (''status'', JStr ''None'')]\<rparr>) \<and>
         (\<forall>r. t w = Some r \<longrightarrow>
            reply (status_handler e False t w) =
              \<lparr>code = 200,
               body = JObj [(''wallet'', JStr w), (''status'', JStr (status r)),
                            (''expiry'', num_or_null (expiry r)),
                            (''txHash'', str_or_null (txHash r))]\<rparr> \<and>
            (status r = ''Failed'' \<longrightarrow>
               get_prop (body (reply (status_handler e False t w))) ''status'' =
                 Inr (JStr ''Failed'')) \<and>
            (expiry r = None \<longrightarrow> num_or_null (expiry r) = JNull) \<and>
            (\<forall>n. expiry r = Some n \<and> n \<noteq> 0 \<longrightarrow> num_or_null (expiry r) = JNum n) \<and>
            (txHash r = None \<longrightarrow> str_or_null (txHash r) = JNull) \<and>
            (\<forall>x. txHash r = Some x \<and> x \<noteq> [] \<longrightarrow> str_or_null (txHash r) = JStr x))"
  using assms
  by (auto simp: status_handler_def db_get_def get_prop_def num_or_null_def str_or_null_def
           split: option.splits)

theorem status_is_pure_read_witness:
  "reply (status_handler example_env False Map.empty example_wallet) =
     \<lparr>code = 200,
      body = JObj [(''wallet'', JStr example_wallet), (''status'', JStr ''None'')]\<rparr> \<and>
   reply (status_handler example_env False
            [example_wallet \<mapsto> pending_row\<lparr>status := ''Failed''\<rparr>] example_wallet) =
     \<lparr>code = 200,
      body = JObj [(''wallet'', JStr example_wallet), (''status'', JStr ''Failed''),
                   (''expiry'', JNull), (''txHash'', JNull)]\<rparr> \<and>
   reply (status_handler example_env False
            [example_wallet \<mapsto>
               \<lparr>hash = Some ''0xaa'', expiry = Some 1793664000, txHash = Some ''0xt1'',
                status = ''Verified''\<rparr>] example_wallet) =
     \<lparr>code = 200,
      body = JObj [(''wallet'', JStr example_wallet), (''status'', JStr ''Verified''),
                   (''expiry'', JNum 1793664000), (''txHash'', JStr ''0xt1'')]\<rparr>"
proof -
  have good: "isAddress example_env example_wallet"
    by (simp add: example_env_def)
  from status_is_pure_read [OF good, of False Map.empty init]
       status_is_pure_read
         [OF good, of False "[example_wallet \<mapsto> pending_row\<lparr>status := ''Failed''\<rparr>]" init]
       status_is_pure_read
         [OF good, of False
            "[example_wallet \<mapsto>
               \<lparr>hash = Some ''0xaa'', expiry = Some 1793664000, txHash = Some ''0xt1'',
                status = ''Verified''\<rparr>]" init]
  show ?thesis
    by (simp add: pending_row_def)
qed

section \<open>The expiry\<close>

text \<open>
  C9. When processing succeeds, the expiry it stores is the clock at processing time, in
  whole seconds, plus 365 days of seconds. Every other outcome of processing (a failure
  in the payload, the submission or the confirmation, or an UPDATE that fails) leaves
  the record's expiry as it was, and an accepted submission stores a record with no
  expiry.
\<close>

theorem expiry_is_one_year_from_processing:
  assumes "t w = Some r"
  shows "(\<forall>h sg tx.
            createVerificationPayload e w (now div 1000 + 365 * 24 * 60 * 60) = Inr (h, sg) \<longrightarrow>
            snd (processVerification e now (Inr tx) (Inr ()) False t w) w =
              Some (r\<lparr>status := ''Verified'', hash := Some h,
                       expiry := Some (now div 1000 + 365 * 24 * 60 * 60),
                       txHash := Some tx\<rparr>)) \<and>
         ((\<exists>err. createVerificationPayload e w (now div 1000 + 365 * 24 * 60 * 60) = Inl err) \<or>
          (\<exists>err. sent = Inl err) \<or> (\<exists>err. confirmed = Inl err) \<or> f \<longrightarrow>
            (\<exists>r'. snd (processVerification e now sent confirmed f t w) w = Some r' \<and>
                  expiry r' = expiry r)) \<and>
         map_option expiry (table_after (accepted False t w) w) = Some None"
  using assms
  by (auto simp: processVerification_def update_verified_def update_failed_def Let_def
        accepted_def insert_or_replace_pending_def pending_row_def
           split: sum.splits prod.splits)

theorem expiry_is_one_year_from_processing_witness:
  "map_option expiry
     (snd (processVerification example_env 1762128000000 (Inr ''0xt1'') (Inr ()) False
             [example_wallet \<mapsto> pending_row] example_wallet) example_wallet) =
     Some (Some (1762128000 + 31536000)) \<and>
   map_option expiry
     (snd (processVerification example_env 1762128000000 (Inl SubmissionError) (Inr ()) False
             [example_wallet \<mapsto> pending_row] example_wallet) example_wallet) =
     Some None"
proof -
  have row: "[example_wallet \<mapsto> pending_row] example_wallet = Some pending_row"
    by simp
  have pay: "createVerificationPayload example_env example_wallet
               (1762128000000 div 1000 + 365 * 24 * 60 * 60) =
             Inr (keccak256 example_env (tuple_encoding 0xaa 0x1bb 1793664000),
                  ''signed '' @ keccak256 example_env (tuple_encoding 0xaa 0x1bb 1793664000))"
    by code_simp
  have fail: "\<exists>err. (Inl SubmissionError :: ledger_error + string) = Inl err"
    by simp
  from expiry_is_one_year_from_processing
         [where t = "[example_wallet \<mapsto> pending_row]" and w = example_wallet
            and r = pending_row and e = example_env and now = 1762128000000
            and sent = "Inl SubmissionError" and confirmed = "Inr ()" and f = False]
       row pay fail
  show ?thesis
    by (auto simp: pending_row_def)
qed

section \<open>The frontend's query\<close>

text \<open>
  C10, as the claim states it, fails in two places. A response whose body is \<open>null\<close>
  has no status field, yet reading \<open>status\<close> from it throws inside the \<open>try\<close> block, so
  the function returns \<open>None\<close>, not \<open>Unknown\<close>. And a response whose status field is
  the empty text has a status field, yet \<^verbatim>\<open>response.data.status || 'Unknown'\<close> returns
  \<open>Unknown\<close>, not the backend's status text.
\<close>

theorem getVerificationStatus_counterexample:
  "getVerificationStatus (isAddress example_env) (Inr JNull) (JStr example_wallet) = JStr ''None'' \<and>
   getVerificationStatus (isAddress example_env) (Inr (JObj [(''status'', JStr [])]))
     (JStr example_wallet) = JStr ''Unknown''"
  by code_simp

text \<open>
  C10, amended. \<open>getVerificationStatus\<close> never throws: every error is caught and
  becomes \<open>None\<close>. It returns \<open>None\<close> when the wallet address is not a well-formed
  address text, when the request fails, and when the response body is null or
  undefined. It returns \<open>Unknown\<close> when the body is an object with no status field or
  with a falsy status (such as the empty text), and when the body is any other value,
  which has no such field. Otherwise it returns the status value of the body.
\<close>

theorem getVerificationStatus_cases:
  "((\<forall>w. v = JStr w \<longrightarrow> \<not> isAddr w) \<longrightarrow> getVerificationStatus isAddr fetched v = JStr ''None'') \<and>
   (\<forall>err. fetched = Inl err \<longrightarrow> getVerificationStatus isAddr fetched v = JStr ''None'') \<and>
   (fetched = Inr JNull \<or> fetched = Inr JUndefined \<longrightarrow>
      getVerificationStatus isAddr fetched v = JStr ''None'') \<and>
   (\<forall>w ps. v = JStr w \<and> isAddr w \<and> fetched = Inr (JObj ps) \<longrightarrow>
      getVerificationStatus isAddr fetched v =
        (case map_of ps ''status'' of
           None \<Rightarrow> JStr ''Unknown''
         | Some st \<Rightarrow> if falsy st then JStr ''Unknown'' else st)) \<and>
   (\<forall>w data. v = JStr w \<and> isAddr w \<and> fetched = Inr data \<and>
             data \<noteq> JNull \<and> data \<noteq> JUndefined \<and> (\<forall>ps. data \<noteq> JObj ps) \<longrightarrow>
      getVerificationStatus isAddr fetched v = JStr ''Unknown'')"
  by (cases v; cases fetched)
     (auto simp: getVerificationStatus_def status_query_def get_prop_def
           split: js_value.splits option.splits sum.splits)

theorem getVerificationStatus_cases_witness:
  "getVerificationStatus (isAddress example_env) (Inr (JObj [(''status'', JStr ''Verified'')]))
     (JStr ''not an address'') = JStr ''None'' \<and>
   getVerificationStatus (isAddress example_env) (Inl RequestFailed) (JStr example_wallet) =
     JStr ''None'' \<and>
   getVerificationStatus (isAddress example_env) (Inr JNull) (JStr example_wallet) =
     JStr ''None'' \<and>
   getVerificationStatus (isAddress example_env)
     (Inr (JObj [(''wallet'', JStr example_wallet), (''status'', JStr ''Verified'')]))
     (JStr example_wallet) = JStr ''Verified'' \<and>
   getVerificationStatus (isAddress example_env) (Inr (JObj [(''wallet'', JStr example_wallet)]))
     (JStr example_wallet) = JStr ''Unknown'' \<and>
   getVerificationStatus (isAddress example_env) (Inr (JStr ''ok'')) (JStr example_wallet) =
     JStr ''Unknown''"
proof -
  have bad: "\<forall>w. JStr ''not an address'' = JStr w \<longrightarrow> \<not> isAddress example_env w"
    by (simp add: example_env_def example_wallet_def example_issuer_def)
  have good: "isAddress example_env example_wallet"
    by (simp add: example_env_def)
  from getVerificationStatus_cases
         [of "JStr ''not an address''" "isAddress example_env"
             "Inr (JObj [(''status'', JStr ''Verified'')])"]
       getVerificationStatus_cases
         [of "JStr example_wallet" "isAddress example_env" "Inl RequestFailed"]
       getVerificationStatus_cases
         [of "JStr example_wallet" "isAddress example_env" "Inr JNull"]
       getVerificationStatus_cases
         [of "JStr example_wallet" "isAddress example_env"
             "Inr (JObj [(''wallet'', JStr example_wallet), (''status'', JStr ''Verified'')])"]
       getVerificationStatus_cases
         [of "JStr example_wallet" "isAddress example_env"
             "Inr (JObj [(''wallet'', JStr example_wallet)])"]
       getVerificationStatus_cases
         [of "JStr example_wallet" "isAddress example_env" "Inr (JStr ''ok'')"]
       bad good
  show ?thesis
    by simp
qed

end
